theory Spec2Isabelle
  imports Complex_Main "HOL-Library.Multiset" "HOL-Library.Sublist"
begin

section \<open>JavaScript strings and what the platform provides\<close>

text \<open>
  A string is the sequence of its Unicode code points, as the \<open>u\<close>-flagged regular
  expression of \<open>extractKeywords\<close> reads it. \<open>String.prototype.length\<close> counts UTF-16
  code units, so a code point above U+FFFF counts twice.
\<close>

type_synonym jsstring = "nat list"

definition str :: "string \<Rightarrow> jsstring" where
  "str s = map of_char s"

definition js_length :: "jsstring \<Rightarrow> nat" where
  "js_length s = sum_list (map (\<lambda>c. if 65536 \<le> c then 2 else 1) s)"

text \<open>\<open>s.includes(t)\<close>: \<open>t\<close> occurs in \<open>s\<close> as a contiguous run; the empty \<open>t\<close> always does.\<close>

fun js_includes :: "jsstring \<Rightarrow> jsstring \<Rightarrow> bool" where
  "js_includes [] t = (t = [])"
| "js_includes (c # cs) t = (prefix t (c # cs) \<or> js_includes cs t)"

text \<open>
  The case mapping and the General_Category table belong to the JavaScript engine, not to
  the repository: they are parameters of the model. \<open>toLowerCase\<close> is
  \<open>String.prototype.toLowerCase\<close>; \<open>catSPZC c\<close> says that the General_Category of \<open>c\<close> is
  one of S, P, Z, C (the class \<open>[\p{S}\p{P}\p{Z}\p{C}]\<close>); \<open>numberPlus\<close> is the addition of two
  Numbers, of which more below.
\<close>

record platform =
  toLowerCase :: "jsstring \<Rightarrow> jsstring"
  catSPZC :: "nat \<Rightarrow> bool"
  numberPlus :: "real \<Rightarrow> real \<Rightarrow> real"

text \<open>
  Numbers. A JavaScript Number is a double; the model computes with real numbers, so its
  arithmetic is exact where the engine rounds. Two places are treated apart, because a
  claim depends on them.

  \<^item> The negative-keyword penalty is compared with a threshold, and a rounded sum can
    fall on the other side of it than the exact one. So the addition that accumulates
    the penalty is the platform's: \<open>numberPlus\<close> stands for the \<open>+\<close> of two finite doubles,
    whatever it rounds to (a sum that overflows to \<open>Infinity\<close> is outside the model).
  \<^item> \<open>parseInt\<close> is modelled by the exact value of the digits. The engine returns the
    nearest double, which is this value up to \<open>2 ^ 53\<close> (and \<open>Infinity\<close> from 309 digits
    on); the statements that read a parsed number are made for numbers in that range.
\<close>

text \<open>
  The class \<open>\s\<close> of ECMAScript: TAB, LF, VT, FF, CR, SPACE, U+00A0, U+1680,
  U+2000..U+200A, U+2028, U+2029, U+202F, U+205F, U+3000, U+FEFF.
\<close>

definition isWs :: "nat \<Rightarrow> bool" where
  "isWs c \<longleftrightarrow> c \<in> set [9, 10, 11, 12, 13, 32, 160, 0x1680, 0x2028, 0x2029, 0x202F, 0x205F, 0x3000, 0xFEFF]
     \<or> (0x2000 \<le> c \<and> c \<le> 0x200A)"

text \<open>The class \<open>\d\<close>: the ten ASCII digits.\<close>

definition isDigit :: "nat \<Rightarrow> bool" where
  "isDigit c \<longleftrightarrow> 48 \<le> c \<and> c \<le> 57"

text \<open>\<open>s.split(/\s+/)\<close>: the pieces between the maximal runs of white space; a run at
  either end leaves an empty piece there, and the empty string gives one empty piece.\<close>

function split_ws :: "jsstring \<Rightarrow> jsstring \<Rightarrow> jsstring list" where
  "split_ws cur [] = [cur]"
| "split_ws cur (c # cs) =
     (if isWs c then cur # split_ws [] (dropWhile isWs cs) else split_ws (cur @ [c]) cs)"
  by pat_completeness auto
termination
  by (relation "measure (\<lambda>(cur, s). length s)") (auto simp: less_Suc_eq_le length_dropWhile_le)

text \<open>\<open>xs.join(' ')\<close>.\<close>

fun join_sp :: "jsstring list \<Rightarrow> jsstring" where
  "join_sp [] = []"
| "join_sp [x] = x"
| "join_sp (x # y # ys) = x @ [32] @ join_sp (y # ys)"

text \<open>\<open>Array.from(new Set(xs))\<close>: a Set keeps its members in insertion order, and adding
  a member again changes nothing.\<close>

fun set_add_all :: "'a list \<Rightarrow> 'a list \<Rightarrow> 'a list" where
  "set_add_all acc [] = acc"
| "set_add_all acc (x # xs) = (if x \<in> set acc then set_add_all acc xs else set_add_all (acc @ [x]) xs)"

definition dedupe :: "'a list \<Rightarrow> 'a list" where
  "dedupe xs = set_add_all [] xs"

section \<open>Keyword extraction\<close>

text \<open>The stop words, as code points: the 25 Japanese particles and copulas in the
  order of the source, and the 25 English words.\<close>

definition JAPANESE_STOP_WORDS :: "jsstring list" where
  "JAPANESE_STOP_WORDS =
    [[0x306E], [0x306B], [0x306F], [0x3092], [0x304C], [0x3067], [0x3067, 0x3059],
     [0x307E, 0x3059], [0x3053, 0x3068], [0x3082, 0x306E], [0x3053, 0x308C],
     [0x305D, 0x308C], [0x3042, 0x308C], [0x3044, 0x308B], [0x3059, 0x308B],
     [0x3042, 0x308B], [0x306A, 0x3044], [0x304B, 0x3089], [0x307E, 0x3067], [0x3068],
     [0x3082], [0x3084], [0x306A, 0x3069], [0x3055, 0x3093], [0x3061, 0x3083, 0x3093]]"

definition ENGLISH_STOP_WORDS :: "jsstring list" where
  "ENGLISH_STOP_WORDS = map str
    [''a'', ''an'', ''the'', ''is'', ''are'', ''was'', ''were'', ''in'', ''on'', ''at'', ''to'',
     ''for'', ''of'', ''it'', ''you'', ''he'', ''she'', ''they'', ''we'', ''i'', ''and'', ''or'',
     ''but'', ''by'', ''with'']"

text \<open>The first replacement: every code point of category S, P, Z or C becomes a space.\<close>

definition replaceSPZC :: "platform \<Rightarrow> jsstring \<Rightarrow> jsstring" where
  "replaceSPZC U s = map (\<lambda>c. if catSPZC U c then 32 else c) s"

text \<open>The second replacement: the sixteen listed brackets and marks
  (\<open>[ ] ( )\<close>, U+3010, U+3011, U+300E, U+300F, U+300C, U+300D, U+30FB, U+3001, U+3002,
  \<open>! ? #\<close>) become a space.\<close>

definition bracketChars :: "nat list" where
  "bracketChars = [0x5B, 0x5D, 0x28, 0x29, 0x3010, 0x3011, 0x300E, 0x300F, 0x300C, 0x300D,
                   0x30FB, 0x3001, 0x3002, 0x21, 0x3F, 0x23]"

definition replaceBrackets :: "jsstring \<Rightarrow> jsstring" where
  "replaceBrackets s = map (\<lambda>c. if c \<in> set bracketChars then 32 else c) s"

text \<open>\<open>/^\d+$/.test(word)\<close>.\<close>

definition allDigits :: "jsstring \<Rightarrow> bool" where
  "allDigits w \<longleftrightarrow> w \<noteq> [] \<and> list_all isDigit w"

definition isKeyword :: "jsstring \<Rightarrow> bool" where
  "isKeyword word \<longleftrightarrow>
     (if word \<in> set JAPANESE_STOP_WORDS \<or> word \<in> set ENGLISH_STOP_WORDS then False
      else if allDigits word then False
      else True)"

definition extractKeywords :: "platform \<Rightarrow> jsstring \<Rightarrow> jsstring list" where
  "extractKeywords U text =
     (if text = [] then []
      else
        let cleanedText = replaceBrackets (replaceSPZC U (toLowerCase U text));
            words = filter (\<lambda>word. js_length word > 1) (split_ws [] cleanedText);
            keywords = filter isKeyword words
        in dedupe keywords)"

text \<open>
  The Unicode data restricted to Basic Latin: \<open>A\<close>..\<open>Z\<close> map to \<open>a\<close>..\<open>z\<close>, and the
  code points below U+0080 other than letters and digits are the ones of category S, P, Z
  or C. Code points from U+0080 on are taken as caseless letters, which is what the Unicode
  Character Database says of the kana and the CJK ideographs used below. Its addition
  is the exact one: it is the addition of doubles wherever the exact sum is a double, as
  with the halves and quarters of the examples. It serves to evaluate the model.
\<close>

definition basicLatin :: platform where
  "basicLatin =
     \<lparr> toLowerCase = map (\<lambda>c. if 65 \<le> c \<and> c \<le> 90 then c + 32 else c),
       catSPZC = (\<lambda>c. c < 48 \<or> (57 < c \<and> c < 65) \<or> (90 < c \<and> c < 97) \<or> (122 < c \<and> c < 128)),
       numberPlus = (\<lambda>x y. x + y) \<rparr>"

text \<open>
  What idempotence needs of the platform: lower-casing is stable, that is, a text made
  only of code points that occur in some lower-cased text, and of spaces, is left
  unchanged by \<open>toLowerCase\<close>.
\<close>

definition lowerStable :: "platform \<Rightarrow> bool" where
  "lowerStable U \<longleftrightarrow> (\<forall>s t. set t \<subseteq> insert 32 (set (toLowerCase U s)) \<longrightarrow> toLowerCase U t = t)"


section \<open>Data model\<close>

text \<open>
  The fields of \<open>Video\<close> and \<open>Channel\<close> that the engine reads (\<open>videoId\<close> is the
  source's \<open>id\<close>, \<open>chanId\<close> and \<open>chanName\<close> are \<open>Channel.id\<close> and \<open>Channel.name\<close>).
  \<open>descriptionSnippet\<close> is optional in the source.
\<close>

record Video =
  videoId :: jsstring
  title :: jsstring
  channelId :: jsstring
  channelName :: jsstring
  views :: jsstring
  uploadedAt :: jsstring
  duration :: jsstring
  isoDuration :: jsstring
  descriptionSnippet :: "jsstring option"

record Channel =
  chanId :: jsstring
  chanName :: jsstring

text \<open>
  A JavaScript \<open>Map\<close> from strings: an association list in insertion order with one entry
  for each key. \<open>map_of\<close> is \<open>get\<close> (\<open>None\<close> for \<open>undefined\<close>); \<open>map_set\<close> is \<open>set\<close>, which
  keeps the place of a key that is already there and appends a new one.
\<close>

fun map_set :: "('k \<times> 'v) list \<Rightarrow> 'k \<Rightarrow> 'v \<Rightarrow> ('k \<times> 'v) list" where
  "map_set [] k v = [(k, v)]"
| "map_set ((k', v') # m) k v = (if k' = k then (k, v) # m else (k', v') # map_set m k v)"

text \<open>\<open>m.get(k) || 0\<close> on a map of numbers.\<close>

definition get_or_0 :: "('k \<times> real) list \<Rightarrow> 'k \<Rightarrow> real" where
  "get_or_0 m k = (case map_of m k of None \<Rightarrow> 0 | Some w \<Rightarrow> w)"

text \<open>\<open>keywordWeights\<close> is the field \<open>keywords\<close> of the source's \<open>UserProfile\<close>.\<close>

record UserProfile =
  keywordWeights :: "(jsstring \<times> real) list"

record UserSources =
  watchHistory :: "Video list"
  searchHistory :: "jsstring list"
  subscribedChannels :: "Channel list"

record ScoringContext =
  ctx_ngKeywords :: "jsstring list"
  ctx_ngChannels :: "jsstring list"
  ctx_watchHistory :: "Video list"

section \<open>User profile builder\<close>

text \<open>Numbers are real numbers: the rounding of IEEE doubles is not part of the model.\<close>

definition addKeywords :: "platform \<Rightarrow> (jsstring \<times> real) list \<Rightarrow> jsstring \<Rightarrow> real \<Rightarrow> (jsstring \<times> real) list" where
  "addKeywords U keywords text weight =
     fold (\<lambda>kw m. map_set m kw (get_or_0 m kw + weight)) (extractKeywords U text) keywords"

definition buildUserProfile :: "platform \<Rightarrow> UserSources \<Rightarrow> UserProfile" where
  "buildUserProfile U sources =
     (let k1 = fold (\<lambda>(index, term) m.
                  let weight = 3.0 * exp (- real index / 5) in addKeywords U m term weight)
                (enumerate 0 (searchHistory sources)) [];
          k2 = fold (\<lambda>(index, video) m.
                  let weight = 2.0 * exp (- real index / 10);
                      m1 = addKeywords U m (title video) weight;
                      m2 = addKeywords U m1 (channelName video) (weight * 0.8)
                  in addKeywords U m2 (case descriptionSnippet video of None \<Rightarrow> [] | Some d \<Rightarrow> d) (weight * 0.5))
                (enumerate 0 (watchHistory sources)) k1;
          k3 = fold (\<lambda>channel m. addKeywords U m (chanName channel) 1.5) (subscribedChannels sources) k2
      in \<lparr> keywordWeights = k3 \<rparr>)"

section \<open>Scoring and ranking\<close>

text \<open>\<open>text.match(/(\d+)/)\<close>: the first maximal run of digits, if there is a digit.\<close>

definition matchDigits :: "jsstring \<Rightarrow> jsstring option" where
  "matchDigits text =
     (let rest = dropWhile (\<lambda>c. \<not> isDigit c) text
      in if rest = [] then None else Some (takeWhile isDigit rest))"

text \<open>\<open>parseInt(ds, 10)\<close> for a non-empty string of digits, which is all the source
  applies it to once the empty string is set apart: the exact value of the digits, which
  is what the engine returns up to \<open>2 ^ 53\<close>.\<close>

definition parseIntDigits :: "jsstring \<Rightarrow> nat" where
  "parseIntDigits ds = foldl (\<lambda>n c. 10 * n + (c - 48)) 0 ds"

text \<open>The unit markers of the recency strings: U+5206 U+524D (minutes ago),
  U+6642 U+9593 U+524D (hours ago), U+65E5 U+524D (days ago), U+9031 U+9593 U+524D
  (weeks ago), U+304B U+6708 U+524D (months ago), U+5E74 U+524D (years ago).\<close>

definition minutesAgo :: jsstring where "minutesAgo = [0x5206, 0x524D]"
definition hoursAgo :: jsstring where "hoursAgo = [0x6642, 0x9593, 0x524D]"
definition daysAgoMark :: jsstring where "daysAgoMark = [0x65E5, 0x524D]"
definition weeksAgo :: jsstring where "weeksAgo = [0x9031, 0x9593, 0x524D]"
definition monthsAgo :: jsstring where "monthsAgo = [0x304B, 0x6708, 0x524D]"
definition yearsAgo :: jsstring where "yearsAgo = [0x5E74, 0x524D]"

definition parseUploadedAt :: "platform \<Rightarrow> jsstring \<Rightarrow> nat" where
  "parseUploadedAt U uploaded =
     (if uploaded = [] then 999
      else
        let text = toLowerCase U uploaded;
            num = (case matchDigits text of Some ds \<Rightarrow> parseIntDigits ds | None \<Rightarrow> 0)
        in if js_includes text minutesAgo \<or> js_includes text hoursAgo then 0
           else if js_includes text daysAgoMark then num
           else if js_includes text weeksAgo then num * 7
           else if js_includes text monthsAgo then num * 30
           else if js_includes text yearsAgo then num * 365
           else 999)"

text \<open>The text of a candidate that is matched and scored.\<close>

definition fullTextOf :: "platform \<Rightarrow> Video \<Rightarrow> jsstring" where
  "fullTextOf U video =
     toLowerCase U (title video @ [32] @ channelName video @ [32]
                    @ (case descriptionSnippet video of None \<Rightarrow> [] | Some d \<Rightarrow> d))"

definition relevanceScore :: "platform \<Rightarrow> UserProfile \<Rightarrow> jsstring \<Rightarrow> real" where
  "relevanceScore U userProfile fullText =
     fold (\<lambda>kw relevance.
             if map_of (keywordWeights userProfile) kw \<noteq> None
             then relevance + get_or_0 (keywordWeights userProfile) kw else relevance)
       (dedupe (extractKeywords U fullText)) 0"

text \<open>\<open>parseInt(video.views.replace(/[^0-9]/g, ''), 10)\<close>; \<open>None\<close> is \<open>NaN\<close>.\<close>

definition parseViews :: "jsstring \<Rightarrow> nat option" where
  "parseViews v = (let ds = filter isDigit v in if ds = [] then None else Some (parseIntDigits ds))"

definition popularityScore :: "Video \<Rightarrow> real" where
  "popularityScore video =
     (case parseViews (views video) of Some n \<Rightarrow> log 10 (real n + 1) | None \<Rightarrow> 0)"

definition freshnessScore :: "platform \<Rightarrow> Video \<Rightarrow> real" where
  "freshnessScore U video =
     (let daysAgo = parseUploadedAt U (uploadedAt video)
      in max 0 (1.0 - real daysAgo / 60) * 5)"

definition finalScore :: "platform \<Rightarrow> UserProfile \<Rightarrow> Video \<Rightarrow> real" where
  "finalScore U userProfile video =
     relevanceScore U userProfile (fullTextOf U video) * 1.5
     + popularityScore video * 0.3
     + freshnessScore U video * 1.0"

text \<open>The first loop of \<open>rankVideos\<close>: its state is the list \<open>scoredVideos\<close> and the set
  \<open>seenIds\<close>; a \<open>continue\<close> leaves both as they are.\<close>

definition scoreStep :: "platform \<Rightarrow> UserProfile \<Rightarrow> ScoringContext \<Rightarrow> Video
    \<Rightarrow> (Video \<times> real) list \<times> jsstring set \<Rightarrow> (Video \<times> real) list \<times> jsstring set" where
  "scoreStep U userProfile context video st =
     (let (scoredVideos, seenIds) = st
      in if videoId video = [] \<or> videoId video \<in> seenIds then st
         else if list_ex (\<lambda>ng. js_includes (fullTextOf U video) (toLowerCase U ng)) (ctx_ngKeywords context) then st
         else if channelId video \<in> set (ctx_ngChannels context) then st
         else (scoredVideos @ [(video, finalScore U userProfile video)], insert (videoId video) seenIds))"

definition scoreVideos :: "platform \<Rightarrow> Video list \<Rightarrow> UserProfile \<Rightarrow> ScoringContext \<Rightarrow> (Video \<times> real) list" where
  "scoreVideos U videos userProfile context =
     fst (fold (scoreStep U userProfile context) videos
            ([], set (map videoId (ctx_watchHistory context))))"

definition MAX_FROM_SAME_CHANNEL :: nat where
  "MAX_FROM_SAME_CHANNEL = 3"

text \<open>The diversity loop: its state is \<open>finalRankedList\<close> and the map \<open>channelCount\<close>.\<close>

definition diversityStep :: "Video \<Rightarrow> Video list \<times> (jsstring \<rightharpoonup> nat) \<Rightarrow> Video list \<times> (jsstring \<rightharpoonup> nat)" where
  "diversityStep video st =
     (let (finalRankedList, channelCount) = st;
          count = (case channelCount (channelId video) of None \<Rightarrow> 0 | Some n \<Rightarrow> n)
      in if count < MAX_FROM_SAME_CHANNEL
         then (finalRankedList @ [video], channelCount(channelId video \<mapsto> count + 1))
         else st)"

definition diversify :: "Video list \<Rightarrow> Video list" where
  "diversify sortedVideos = fst (fold diversityStep sortedVideos ([], Map.empty))"

text \<open>\<open>sort((a, b) => b.score - a.score)\<close>: a stable sort, by descending score.\<close>

definition sortByScore :: "(Video \<times> real) list \<Rightarrow> (Video \<times> real) list" where
  "sortByScore scoredVideos = sort_key (\<lambda>sv. - snd sv) scoredVideos"

definition rankVideos :: "platform \<Rightarrow> Video list \<Rightarrow> UserProfile \<Rightarrow> ScoringContext \<Rightarrow> Video list" where
  "rankVideos U videos userProfile context =
     diversify (map fst (sortByScore (scoreVideos U videos userProfile context)))"


section \<open>Promises, the catalog service and the random source\<close>

text \<open>
  A promise is modelled by the way it settles: \<open>Inl e\<close> when it rejects with \<open>e\<close>,
  \<open>Inr v\<close> when it fulfils with \<open>v\<close>. A call that never settles is outside the model.
\<close>

datatype error = Rejected

type_synonym 'a promise = "error + 'a"

definition then_p :: "'a promise \<Rightarrow> ('a \<Rightarrow> 'b) \<Rightarrow> 'b promise" where
  "then_p p f = (case p of Inl e \<Rightarrow> Inl e | Inr v \<Rightarrow> Inr (f v))"

definition catch_p :: "'a promise \<Rightarrow> (error \<Rightarrow> 'a) \<Rightarrow> 'a promise" where
  "catch_p p h = (case p of Inl e \<Rightarrow> Inr (h e) | Inr v \<Rightarrow> Inr v)"

text \<open>\<open>await p\<close> in an async function: a rejection of \<open>p\<close> rejects the function.\<close>

definition await :: "'a promise \<Rightarrow> ('a \<Rightarrow> 'b promise) \<Rightarrow> 'b promise" where
  "await p k = (case p of Inl e \<Rightarrow> Inl e | Inr v \<Rightarrow> k v)"

text \<open>\<open>Promise.all\<close> rejects with the first rejection; \<open>Promise.allSettled\<close> always
  fulfils, with the outcomes in the order of the promises.\<close>

fun promise_all :: "'a promise list \<Rightarrow> 'a list promise" where
  "promise_all [] = Inr []"
| "promise_all (p # ps) =
     (case p of Inl e \<Rightarrow> Inl e
      | Inr v \<Rightarrow> (case promise_all ps of Inl e \<Rightarrow> Inl e | Inr vs \<Rightarrow> Inr (v # vs)))"

definition allSettled :: "'a promise list \<Rightarrow> 'a promise list promise" where
  "allSettled ps = Inr ps"

record SearchResult =
  videos :: "Video list"
  shorts :: "Video list"

record VideoDetails =
  relatedVideos :: "Video list option"

text \<open>\<open>pageVideos\<close> is the field \<open>videos\<close> of what \<open>getChannelVideos\<close> and
  \<open>getRecommendedVideos\<close> answer.\<close>

record VideoPage =
  pageVideos :: "Video list"

text \<open>
  The module \<open>./api\<close> is not part of the sources: it is a parameter. The first argument
  of a service function is the number of the call within the pass, so that two calls with
  the same request may settle differently.
\<close>

record api =
  searchVideos :: "nat \<Rightarrow> jsstring \<Rightarrow> jsstring \<Rightarrow> SearchResult promise"
  getVideoDetails :: "nat \<Rightarrow> jsstring \<Rightarrow> VideoDetails promise"
  getChannelVideos :: "nat \<Rightarrow> jsstring \<Rightarrow> VideoPage promise"
  getRecommendedVideos :: "nat \<Rightarrow> VideoPage promise"
  parseDuration :: "jsstring \<Rightarrow> jsstring \<Rightarrow> int"

text \<open>
  The process-wide random source: a sequence of draws and the number of draws consumed.
  \<open>randomIndex r m\<close> is \<open>Math.floor(Math.random() * m)\<close> for \<open>m > 0\<close>: the draw \<open>d\<close>
  stands for any value of \<open>Math.random()\<close> that makes this \<open>d mod m\<close>.
\<close>

type_synonym rng = "(nat \<Rightarrow> nat) \<times> nat"

definition randomIndex :: "rng \<Rightarrow> nat \<Rightarrow> nat \<times> rng" where
  "randomIndex r m = (fst r (snd r) mod m, (fst r, Suc (snd r)))"

fun shuffleLoop :: "nat \<Rightarrow> rng \<Rightarrow> 'a list \<Rightarrow> 'a list \<times> rng" where
  "shuffleLoop 0 r newArray = (newArray, r)"
| "shuffleLoop (Suc i') r newArray =
     (let i = Suc i';
          (j, r') = randomIndex r (i + 1)
      in shuffleLoop i' r' (newArray[i := newArray ! j, j := newArray ! i]))"

definition shuffleArray :: "rng \<Rightarrow> 'a list \<Rightarrow> 'a list \<times> rng" where
  "shuffleArray r array = shuffleLoop (length array - 1) r array"

section \<open>The profile-ranked engine\<close>

text \<open>The fields of \<open>RecommendationSource\<close> that this engine reads.\<close>

record RecommendationSource = UserSources +
  ngKeywords :: "jsstring list"
  ngChannels :: "jsstring list"

text \<open>The calls that \<open>getXraiRecommendations\<close> pushes on \<open>candidatePromises\<close>, in order.\<close>

datatype sourceCall =
    RelatedWalk jsstring
  | InterestSearch jsstring
  | SubscriptionPull jsstring
  | Fallback

definition topKeywords :: "UserProfile \<Rightarrow> jsstring list" where
  "topKeywords userProfile = map fst (take 3 (sort_key (\<lambda>e. - snd e) (keywordWeights userProfile)))"

definition sourceCalls :: "rng \<Rightarrow> RecommendationSource \<Rightarrow> UserProfile \<Rightarrow> sourceCall list" where
  "sourceCalls r sources userProfile =
     (let (callsA, r1) =
            (if watchHistory sources \<noteq> []
             then let (shuffled, r') = shuffleArray r (take 5 (watchHistory sources));
                      recentVideos = take 3 shuffled
                  in (map (\<lambda>video. RelatedWalk (videoId video)) recentVideos, r')
             else ([], r));
          callsB = map InterestSearch (topKeywords userProfile);
          (callsC, r2) =
            (if subscribedChannels sources \<noteq> []
             then let (shuffled, r') = shuffleArray r1 (subscribedChannels sources);
                      randomSubs = take 5 shuffled
                  in (map (\<lambda>sub. SubscriptionPull (chanId sub)) randomSubs, r')
             else ([], r1));
          calls = callsA @ callsB @ callsC
      in if length calls < 3 then calls @ [Fallback] else calls)"

definition issue :: "api \<Rightarrow> nat \<Rightarrow> sourceCall \<Rightarrow> Video list promise" where
  "issue A n call =
     (case call of
        RelatedWalk vid \<Rightarrow>
          catch_p (then_p (getVideoDetails A n vid)
                     (\<lambda>details. take 15 (case relatedVideos details of None \<Rightarrow> [] | Some vs \<Rightarrow> vs)))
                  (\<lambda>_. [])
      | InterestSearch keyword \<Rightarrow>
          catch_p (then_p (searchVideos A n keyword (str ''1'')) (\<lambda>res. take 10 (videos res))) (\<lambda>_. [])
      | SubscriptionPull cid \<Rightarrow>
          catch_p (then_p (getChannelVideos A n cid) (\<lambda>res. take 5 (pageVideos res))) (\<lambda>_. [])
      | Fallback \<Rightarrow>
          catch_p (then_p (getRecommendedVideos A n) (\<lambda>res. take 20 (pageVideos res))) (\<lambda>_. []))"

definition candidatePromises :: "api \<Rightarrow> sourceCall list \<Rightarrow> Video list promise list" where
  "candidatePromises A calls = map (\<lambda>(n, call). issue A n call) (enumerate 0 calls)"

text \<open>The loop over the settled results: the value of each fulfilled one is appended.\<close>

definition collectFulfilled :: "Video list promise list \<Rightarrow> Video list" where
  "collectFulfilled results =
     fold (\<lambda>result allCandidates.
             case result of Inr value \<Rightarrow> allCandidates @ value | Inl _ \<Rightarrow> allCandidates)
       results []"

definition userSourcesOf :: "RecommendationSource \<Rightarrow> UserSources" where
  "userSourcesOf sources =
     \<lparr> watchHistory = watchHistory sources, searchHistory = searchHistory sources,
       subscribedChannels = subscribedChannels sources \<rparr>"

definition scoringContextOf :: "RecommendationSource \<Rightarrow> ScoringContext" where
  "scoringContextOf sources =
     \<lparr> ctx_ngKeywords = ngKeywords sources, ctx_ngChannels = ngChannels sources,
       ctx_watchHistory = watchHistory sources \<rparr>"

text \<open>The fan-out and fan-in: the candidates handed to \<open>rankVideos\<close>.\<close>

definition gatherCandidates :: "platform \<Rightarrow> api \<Rightarrow> rng \<Rightarrow> RecommendationSource \<Rightarrow> Video list promise" where
  "gatherCandidates U A r sources =
     (let userProfile = buildUserProfile U (userSourcesOf sources);
          promises = candidatePromises A (sourceCalls r sources userProfile)
      in await (allSettled promises) (\<lambda>results. Inr (collectFulfilled results)))"

definition getXraiRecommendations :: "platform \<Rightarrow> api \<Rightarrow> rng \<Rightarrow> RecommendationSource \<Rightarrow> Video list promise" where
  "getXraiRecommendations U A r sources =
     await (gatherCandidates U A r sources) (\<lambda>allCandidates.
       let userProfile = buildUserProfile U (userSourcesOf sources);
           rankedVideos = rankVideos U allCandidates userProfile (scoringContextOf sources)
       in Inr (take 50 rankedVideos))"


section \<open>The ratio-mix engine\<close>

text \<open>\<open>blockedId\<close> and \<open>hiddenId\<close> are the field \<open>id\<close> of \<open>BlockedChannel\<close> and of
  \<open>HiddenVideo\<close>, the only field of them that the engine reads.\<close>

record BlockedChannel =
  blockedId :: jsstring

record HiddenVideo =
  hiddenId :: jsstring

text \<open>The \<open>RecommendationSource\<close> of the ratio-mix engine (\<open>mixNgKeywords\<close> and
  \<open>mixNgChannels\<close> are its \<open>ngKeywords\<close> and \<open>ngChannels\<close>).\<close>

record MixSource = UserSources +
  shortsHistory :: "Video list option"
  mixNgKeywords :: "jsstring list"
  mixNgChannels :: "BlockedChannel list"
  hiddenVideos :: "HiddenVideo list"
  negativeKeywords :: "(jsstring \<times> real) list"

subsection \<open>Search seeds\<close>

text \<open>The closing bracket that an opening one waits for, in the three alternatives of
  the regular expression of \<open>cleanTitleForSearch\<close>: U+3010 with U+3011, \<open>[\<close> with \<open>]\<close>,
  \<open>(\<close> with \<open>)\<close>.\<close>

definition closerOf :: "nat \<Rightarrow> nat option" where
  "closerOf c = (if c = 0x3010 then Some 0x3011 else if c = 0x5B then Some 0x5D
                 else if c = 0x28 then Some 0x29 else None)"

text \<open>The dot of a regular expression matches no line terminator.\<close>

definition isLineTerminator :: "nat \<Rightarrow> bool" where
  "isLineTerminator c \<longleftrightarrow> c \<in> set [10, 13, 0x2028, 0x2029]"

text \<open>What follows the nearest closing bracket, if one comes before any line terminator.\<close>

fun findClose :: "nat \<Rightarrow> jsstring \<Rightarrow> jsstring option" where
  "findClose cl [] = None"
| "findClose cl (c # cs) =
     (if c = cl then Some cs else if isLineTerminator c then None else findClose cl cs)"

lemma findClose_length: "findClose cl cs = Some rest \<Longrightarrow> length rest < Suc (length cs)"
  by (induction cs) (auto split: if_splits)

function stripBrackets :: "jsstring \<Rightarrow> jsstring" where
  "stripBrackets [] = []"
| "stripBrackets (c # cs) =
     (case closerOf c of
        None \<Rightarrow> c # stripBrackets cs
      | Some cl \<Rightarrow>
          (case findClose cl cs of
             None \<Rightarrow> c # stripBrackets cs
           | Some rest \<Rightarrow> stripBrackets rest))"
  by pat_completeness auto
termination
  by (relation "measure length") (auto simp: findClose_length)

definition trim :: "jsstring \<Rightarrow> jsstring" where
  "trim s = rev (dropWhile isWs (rev (dropWhile isWs s)))"

text \<open>\<open>s.split(' ')\<close>: the pieces between the single spaces.\<close>

fun split_sp :: "jsstring \<Rightarrow> jsstring \<Rightarrow> jsstring list" where
  "split_sp cur [] = [cur]"
| "split_sp cur (c # cs) = (if c = 32 then cur # split_sp [] cs else split_sp (cur @ [c]) cs)"

definition cleanTitleForSearch :: "jsstring \<Rightarrow> jsstring" where
  "cleanTitleForSearch t = join_sp (take 4 (split_sp [] (trim (stripBrackets t))))"

subsection \<open>The main feed\<close>

text \<open>The penalty loop of both filters; \<open>negativeScore += w\<close> is the platform's addition.\<close>

definition negativeScore :: "platform \<Rightarrow> (jsstring \<times> real) list \<Rightarrow> Video \<Rightarrow> real" where
  "negativeScore U negKw v =
     (let vKeywords = extractKeywords U (title v) @ extractKeywords U (channelName v)
      in fold (\<lambda>k score. if map_of negKw k \<noteq> None then numberPlus U score (get_or_0 negKw k) else score)
           vKeywords 0)"

definition matchesNgKeyword :: "platform \<Rightarrow> jsstring list \<Rightarrow> Video \<Rightarrow> bool" where
  "matchesNgKeyword U ngs v =
     (let fullText = toLowerCase U (title v @ [32] @ channelName v)
      in list_ex (\<lambda>ng. js_includes fullText (toLowerCase U ng)) ngs)"

text \<open>The callback of \<open>videos.filter\<close> in \<open>getXraiRecommendations\<close>: the state is the kept
  videos and the shared set \<open>seenIds\<close>, to which the id is added before the other checks.\<close>

definition filterStep :: "platform \<Rightarrow> MixSource \<Rightarrow> Video \<Rightarrow> Video list \<times> jsstring set \<Rightarrow> Video list \<times> jsstring set" where
  "filterStep U sources v st =
     (let (kept, seenIds) = st
      in if videoId v \<in> seenIds then (kept, seenIds)
         else
           let seenIds' = insert (videoId v) seenIds;
               ngChannelIds = set (map blockedId (mixNgChannels sources))
           in if matchesNgKeyword U (mixNgKeywords sources) v then (kept, seenIds')
              else if channelId v \<in> ngChannelIds then (kept, seenIds')
              else if negativeScore U (negativeKeywords sources) v > 2 then (kept, seenIds')
              else (kept @ [v], seenIds'))"

definition filterAndDedupe :: "platform \<Rightarrow> MixSource \<Rightarrow> jsstring set \<Rightarrow> Video list \<Rightarrow> Video list \<times> jsstring set" where
  "filterAndDedupe U sources seenIds vs = fold (filterStep U sources) vs ([], seenIds)"

definition personalizedSeeds :: "rng \<Rightarrow> MixSource \<Rightarrow> jsstring list \<times> rng" where
  "personalizedSeeds r sources =
     (if watchHistory sources \<noteq> []
      then let (shuffled, r') = shuffleArray r (watchHistory sources);
               historySample = take 5 shuffled
           in (map (\<lambda>v. cleanTitleForSearch (title v) @ str '' related'') historySample, r')
      else if subscribedChannels sources \<noteq> []
      then let (shuffled, r') = shuffleArray r (subscribedChannels sources);
               subSample = take 3 shuffled
           in (map (\<lambda>c. chanName c @ str '' videos'') subSample, r')
      else ([str ''Music'', str ''Gaming'', str ''Vlog''], r))"

definition TARGET_COUNT :: nat where "TARGET_COUNT = 50"
definition TRENDING_RATIO :: real where "TRENDING_RATIO = 0.40"

text \<open>Steps 3 and 4 of \<open>getXraiRecommendations\<close>: filtering both pools and mixing them.\<close>

definition mixFeed :: "platform \<Rightarrow> rng \<Rightarrow> MixSource \<Rightarrow> Video list \<Rightarrow> Video list \<Rightarrow> Video list" where
  "mixFeed U r sources trendingVideos personalizedCandidates =
     (let hiddenVideoIdsSet = set (map hiddenId (hiddenVideos sources));
          (cleanTrending, seen1) = filterAndDedupe U sources hiddenVideoIdsSet trendingVideos;
          (cleanPersonalized, seen2) = filterAndDedupe U sources seen1 personalizedCandidates;
          numTrending = nat \<lfloor>real TARGET_COUNT * TRENDING_RATIO\<rfloor>;
          numPersonalized = TARGET_COUNT - numTrending;
          (shuffledTrending, r1) = shuffleArray r cleanTrending;
          finalTrending = take numTrending shuffledTrending;
          (shuffledPersonalized, r2) = shuffleArray r1 cleanPersonalized;
          finalPersonalized = take numPersonalized shuffledPersonalized;
          finalFeed = finalTrending @ finalPersonalized
      in fst (shuffleArray r2 finalFeed))"

text \<open>Steps 1 and 2 of \<open>getXraiRecommendations\<close>: the two awaited pools (trending,
  personalized) and the random source after the seeds were drawn.\<close>

definition mixRawPools :: "platform \<Rightarrow> api \<Rightarrow> rng \<Rightarrow> MixSource \<Rightarrow> (Video list \<times> Video list \<times> rng) promise" where
  "mixRawPools U A r sources =
     (let (seeds, r1) = personalizedSeeds r sources;
          searchPromises =
            map (\<lambda>(n, query). catch_p (then_p (searchVideos A n query (str ''1'')) videos) (\<lambda>_. []))
              (enumerate 0 seeds)
      in await (promise_all searchPromises) (\<lambda>personalizedResults.
           let personalizedCandidates = concat personalizedResults;
               trendingPromise =
                 catch_p (then_p (getRecommendedVideos A (length seeds)) pageVideos) (\<lambda>_. [])
           in await trendingPromise (\<lambda>trendingVideos.
                Inr (trendingVideos, personalizedCandidates, r1))))"

text \<open>The \<open>getXraiRecommendations\<close> of the ratio-mix engine; the suffix tells it from the
  function of the same name of the profile-ranked engine.\<close>

definition getXraiRecommendationsMix :: "platform \<Rightarrow> api \<Rightarrow> rng \<Rightarrow> MixSource \<Rightarrow> Video list promise" where
  "getXraiRecommendationsMix U A r sources =
     await (mixRawPools U A r sources) (\<lambda>(trendingVideos, personalizedCandidates, r1).
       Inr (mixFeed U r1 sources trendingVideos personalizedCandidates))"

subsection \<open>The short-form feed\<close>

definition isShortVideo :: "platform \<Rightarrow> api \<Rightarrow> Video \<Rightarrow> bool" where
  "isShortVideo U A v =
     (let seconds = parseDuration A (isoDuration v) (duration v)
      in (seconds > 0 \<and> seconds \<le> 60) \<or> js_includes (toLowerCase U (title v)) (str ''#shorts''))"

definition historyIdsOf :: "MixSource \<Rightarrow> jsstring set" where
  "historyIdsOf sources =
     set (map videoId (case shortsHistory sources of None \<Rightarrow> [] | Some h \<Rightarrow> h))"

text \<open>The callback of \<open>videos.filter\<close> in \<open>getXraiShorts\<close>: here the id is added to
  \<open>seenIds\<close> only when the video is kept.\<close>

definition filterStepShorts :: "platform \<Rightarrow> MixSource \<Rightarrow> Video \<Rightarrow> Video list \<times> jsstring set \<Rightarrow> Video list \<times> jsstring set" where
  "filterStepShorts U sources v st =
     (let (kept, seenIds) = st;
          hiddenVideoIdsSet = set (map hiddenId (hiddenVideos sources));
          ngChannelIds = set (map blockedId (mixNgChannels sources))
      in if videoId v \<in> historyIdsOf sources \<or> videoId v \<in> hiddenVideoIdsSet \<or> videoId v \<in> seenIds then st
         else if matchesNgKeyword U (mixNgKeywords sources) v then st
         else if channelId v \<in> ngChannelIds then st
         else if negativeScore U (negativeKeywords sources) v > 2 then st
         else (kept @ [v], insert (videoId v) seenIds))"

definition filterAndDedupeShorts :: "platform \<Rightarrow> MixSource \<Rightarrow> jsstring set \<Rightarrow> Video list \<Rightarrow> Video list \<times> jsstring set" where
  "filterAndDedupeShorts U sources seenIds vs = fold (filterStepShorts U sources) vs ([], seenIds)"

definition shortsSeeds :: "rng \<Rightarrow> MixSource \<Rightarrow> jsstring list \<times> rng" where
  "shortsSeeds r sources =
     (if shortsHistory sources \<noteq> None \<and> shortsHistory sources \<noteq> Some []
      then let (shuffled, r') = shuffleArray r (case shortsHistory sources of None \<Rightarrow> [] | Some h \<Rightarrow> h)
           in (map (\<lambda>v. cleanTitleForSearch (title v) @ str '' #shorts'') (take 4 shuffled), r')
      else if watchHistory sources \<noteq> []
      then let (shuffled, r') = shuffleArray r (watchHistory sources)
           in (map (\<lambda>v. cleanTitleForSearch (title v) @ str '' #shorts'') (take 4 shuffled), r')
      else ([str ''Funny #shorts'', str ''Gaming #shorts''], r))"

definition SHORTS_TARGET_COUNT :: nat where "SHORTS_TARGET_COUNT = 40"
definition POPULAR_RATIO :: real where "POPULAR_RATIO = 0.75"

text \<open>The mixed feed of \<open>getXraiShorts\<close>, before the last shuffle, and the random source
  left for that shuffle.\<close>

definition shortsFinalFeed :: "platform \<Rightarrow> rng \<Rightarrow> MixSource \<Rightarrow> Video list \<Rightarrow> Video list \<Rightarrow> Video list \<times> rng" where
  "shortsFinalFeed U r sources popularShortsRaw personalizedShortsRaw =
     (let (cleanPopular, seen1) = filterAndDedupeShorts U sources {} popularShortsRaw;
          (cleanPersonalized, seen2) = filterAndDedupeShorts U sources seen1 personalizedShortsRaw;
          numPopular = nat \<lfloor>real SHORTS_TARGET_COUNT * POPULAR_RATIO\<rfloor>;
          numPersonalized = SHORTS_TARGET_COUNT - numPopular;
          (shuffledPopular, r1) = shuffleArray r cleanPopular;
          finalPopular = take numPopular shuffledPopular;
          (shuffledPersonalized, r2) = shuffleArray r1 cleanPersonalized;
          finalPersonalized = take numPersonalized shuffledPersonalized
      in (finalPopular @ finalPersonalized, r2))"

text \<open>Everything of \<open>getXraiShorts\<close> after the two pools have been awaited.\<close>

definition mixShorts :: "platform \<Rightarrow> rng \<Rightarrow> MixSource \<Rightarrow> Video list \<Rightarrow> Video list \<Rightarrow> Video list" where
  "mixShorts U r sources popularShortsRaw personalizedShortsRaw =
     (let (finalFeed, r2) = shortsFinalFeed U r sources popularShortsRaw personalizedShortsRaw
      in if length finalFeed = 0
         then take 20 (fst (shuffleArray r2
                 (filter (\<lambda>v. videoId v \<notin> historyIdsOf sources) popularShortsRaw)))
         else fst (shuffleArray r2 finalFeed))"

text \<open>The two awaited pools of \<open>getXraiShorts\<close> (popular, personalized) and the random
  source after the seeds were drawn. The popular call is issued first.\<close>

definition shortsRawPools :: "platform \<Rightarrow> api \<Rightarrow> rng \<Rightarrow> MixSource \<Rightarrow> (Video list \<times> Video list \<times> rng) promise" where
  "shortsRawPools U A r sources =
     (let popularPromise =
            catch_p (then_p (getRecommendedVideos A 0) (\<lambda>res. filter (isShortVideo U A) (pageVideos res)))
              (\<lambda>_. []);
          (seeds, r1) = shortsSeeds r sources;
          personalizedPromises =
            map (\<lambda>(n, query).
                   catch_p (then_p (searchVideos A n query (str ''1''))
                              (\<lambda>res. filter (isShortVideo U A) (videos res @ shorts res)))
                     (\<lambda>_. []))
              (enumerate 1 seeds)
      in await popularPromise (\<lambda>popularShortsRaw.
           await (promise_all personalizedPromises) (\<lambda>personalizedShortsNested.
             Inr (popularShortsRaw, concat personalizedShortsNested, r1))))"

definition getXraiShorts :: "platform \<Rightarrow> api \<Rightarrow> rng \<Rightarrow> MixSource \<Rightarrow> Video list promise" where
  "getXraiShorts U A r sources =
     await (shortsRawPools U A r sources) (\<lambda>(popularShortsRaw, personalizedShortsRaw, r1).
       Inr (mixShorts U r1 sources popularShortsRaw personalizedShortsRaw))"

text \<open>The pass takes the fallback path of \<open>getXraiShorts\<close> when the mixed feed is empty.\<close>

definition takesFallback :: "platform \<Rightarrow> api \<Rightarrow> rng \<Rightarrow> MixSource \<Rightarrow> bool" where
  "takesFallback U A r sources =
     (case shortsRawPools U A r sources of
        Inl e \<Rightarrow> False
      | Inr (popularShortsRaw, personalizedShortsRaw, r1) \<Rightarrow>
          length (fst (shortsFinalFeed U r1 sources popularShortsRaw personalizedShortsRaw)) = 0)"

section \<open>Notions used in the statements\<close>

text \<open>The number of members of a feed that belong to a channel.\<close>

definition channelOccurrences :: "jsstring \<Rightarrow> Video list \<Rightarrow> nat" where
  "channelOccurrences c feed = length (filter (\<lambda>v. channelId v = c) feed)"

text \<open>The decimal numeral of a natural number, as \<open>String(n)\<close> writes it.\<close>

function decimal :: "nat \<Rightarrow> jsstring" where
  "decimal n = (if n < 10 then [48 + n] else decimal (n div 10) @ [48 + n mod 10])"
  by pat_completeness auto
termination
  by (relation "measure id") auto

declare decimal.simps [simp del]

text \<open>The code points of the unit markers, and what the recency parser needs of the
  platform: they and the digits have no case, so that lower-casing leaves a text made of
  them unchanged.\<close>

definition recencyChars :: "nat list" where
  "recencyChars = [0x5206, 0x524D, 0x6642, 0x9593, 0x65E5, 0x9031, 0x304B, 0x6708, 0x5E74]"

definition caselessRecency :: "platform \<Rightarrow> bool" where
  "caselessRecency U \<longleftrightarrow>
     (\<forall>s. (\<forall>c\<in>set s. isDigit c \<or> c \<in> set recencyChars) \<longrightarrow> toLowerCase U s = s)"

text \<open>A recency text is parseable when, lower-cased, it includes one of the six unit
  markers; the last \<open>return\<close> of \<open>parseUploadedAt\<close> is for the others.\<close>

definition hasUnitMarker :: "platform \<Rightarrow> jsstring \<Rightarrow> bool" where
  "hasUnitMarker U s =
     list_ex (js_includes (toLowerCase U s))
       [minutesAgo, hoursAgo, daysAgoMark, weeksAgo, monthsAgo, yearsAgo]"




section \<open>The formulas of the specification\<close>

text \<open>The scorer as the specification words it. The relevance of a candidate is the sum,
  over the set of the keywords extracted from the lower-cased text made of its title, its
  channel name and its description, of the weight the profile gives to the keyword (0
  when it gives none).\<close>

definition spec_relevance :: "platform \<Rightarrow> UserProfile \<Rightarrow> Video \<Rightarrow> real" where
  "spec_relevance U userProfile video =
     (\<Sum>kw\<in>set (extractKeywords U
                   (toLowerCase U
                      (title video @ str '' '' @ channelName video @ str '' ''
                       @ (case descriptionSnippet video of None \<Rightarrow> [] | Some d \<Rightarrow> d)))).
        case map_of (keywordWeights userProfile) kw of None \<Rightarrow> 0 | Some w \<Rightarrow> w)"

text \<open>The parsed views are the number that the digits of the views text write, in
  positional notation; the popularity is 0 when the text has no digit.\<close>

definition digitsValue :: "jsstring \<Rightarrow> nat" where
  "digitsValue ds = (\<Sum>i<length ds. (ds ! i - 48) * 10 ^ (length ds - Suc i))"

definition spec_popularity :: "Video \<Rightarrow> real" where
  "spec_popularity video =
     (let ds = filter isDigit (views video)
      in if ds = [] then 0 else log 10 (real (digitsValue ds) + 1))"

text \<open>The views of a candidate are in the range where \<open>parseInt\<close> is exact.\<close>

definition viewsInRange :: "Video \<Rightarrow> bool" where
  "viewsInRange video \<longleftrightarrow> digitsValue (filter isDigit (views video)) \<le> 2 ^ 53"

definition spec_freshness :: "platform \<Rightarrow> Video \<Rightarrow> real" where
  "spec_freshness U video = max 0 (1 - real (parseUploadedAt U (uploadedAt video)) / 60) * 5"

definition spec_finalScore :: "platform \<Rightarrow> UserProfile \<Rightarrow> Video \<Rightarrow> real" where
  "spec_finalScore U userProfile video =
     1.5 * spec_relevance U userProfile video + 0.3 * spec_popularity video
     + 1.0 * spec_freshness U video"

text \<open>The profile as the specification words it: what each signal contributes to a
  keyword (the weight when the keyword is among those extracted from the text, else 0),
  summed over the search terms by position, the watched videos by position, and the
  subscribed channels.\<close>

definition spec_contribution :: "platform \<Rightarrow> jsstring \<Rightarrow> jsstring \<Rightarrow> real \<Rightarrow> real" where
  "spec_contribution U kw text weight = (if kw \<in> set (extractKeywords U text) then weight else 0)"

definition spec_profileWeight :: "platform \<Rightarrow> UserSources \<Rightarrow> jsstring \<Rightarrow> real" where
  "spec_profileWeight U sources kw =
     (\<Sum>i<length (searchHistory sources).
         spec_contribution U kw (searchHistory sources ! i) (3.0 * exp (- real i / 5)))
     + (\<Sum>i<length (watchHistory sources).
         spec_contribution U kw (title (watchHistory sources ! i)) (2.0 * exp (- real i / 10))
         + spec_contribution U kw (channelName (watchHistory sources ! i))
             (0.8 * (2.0 * exp (- real i / 10)))
         + spec_contribution U kw
             (case descriptionSnippet (watchHistory sources ! i) of None \<Rightarrow> [] | Some d \<Rightarrow> d)
             (0.5 * (2.0 * exp (- real i / 10))))
     + (\<Sum>channel\<leftarrow>subscribedChannels sources. spec_contribution U kw (chanName channel) 1.5)"




section \<open>Loop invariants\<close>

text \<open>The invariants of the filtering, scoring and diversity loops: what holds of the
  state (the list built so far and the set or map beside it) after every step.\<close>

definition filterInv :: "MixSource \<Rightarrow> jsstring set \<Rightarrow> Video list \<times> jsstring set \<Rightarrow> bool" where
  "filterInv sources seen0 st \<longleftrightarrow>
     distinct (map videoId (fst st)) \<and> videoId ` set (fst st) \<subseteq> snd st - seen0 \<and> seen0 \<subseteq> snd st
     \<and> (\<forall>v\<in>set (fst st). channelId v \<notin> blockedId ` set (mixNgChannels sources))"

definition filterInvShorts :: "MixSource \<Rightarrow> jsstring set \<Rightarrow> Video list \<times> jsstring set \<Rightarrow> bool" where
  "filterInvShorts sources seen0 st \<longleftrightarrow>
     distinct (map videoId (fst st)) \<and> snd st = seen0 \<union> videoId ` set (fst st)
     \<and> (\<forall>v\<in>set (fst st). videoId v \<notin> seen0 \<and> videoId v \<notin> historyIdsOf sources
            \<and> videoId v \<notin> hiddenId ` set (hiddenVideos sources)
            \<and> channelId v \<notin> blockedId ` set (mixNgChannels sources))"

definition scoreInv :: "platform \<Rightarrow> UserProfile \<Rightarrow> ScoringContext \<Rightarrow> Video list \<Rightarrow> jsstring set
    \<Rightarrow> (Video \<times> real) list \<times> jsstring set \<Rightarrow> bool" where
  "scoreInv U p ctx vs seen0 st \<longleftrightarrow>
     distinct (map (videoId \<circ> fst) (fst st))
     \<and> (videoId \<circ> fst) ` set (fst st) \<subseteq> snd st - seen0 \<and> seen0 \<subseteq> snd st
     \<and> (\<forall>sv\<in>set (fst st). fst sv \<in> set vs \<and> snd sv = finalScore U p (fst sv)
            \<and> channelId (fst sv) \<notin> set (ctx_ngChannels ctx))"

definition divInv :: "Video list \<times> (jsstring \<rightharpoonup> nat) \<Rightarrow> bool" where
  "divInv st \<longleftrightarrow>
     (\<forall>c. (case snd st c of None \<Rightarrow> 0 | Some n \<Rightarrow> n) = channelOccurrences c (fst st)
          \<and> channelOccurrences c (fst st) \<le> 3)"

section \<open>Example data\<close>

text \<open>
  A video with the given id, title and channel id; a catalog service whose recommended
  feed answers with the given videos while every other call rejects; a random source
  whose draws are all 0; a ratio-mix source with the given hidden video ids and NG channel
  ids and nothing else; a profile-ranked source with the given NG channel ids and nothing
  else.
\<close>

definition exampleVideo :: "string \<Rightarrow> string \<Rightarrow> string \<Rightarrow> Video" where
  "exampleVideo i t c =
     \<lparr> videoId = str i, title = str t, channelId = str c, channelName = str ''Studio'',
       views = str ''9 views'', uploadedAt = str ''3 days ago'', duration = str ''0:30'',
       isoDuration = str ''PT30S'', descriptionSnippet = None \<rparr>"

definition onlyTrending :: "Video list \<Rightarrow> api" where
  "onlyTrending vs =
     \<lparr> searchVideos = (\<lambda>n query page. Inl Rejected),
       getVideoDetails = (\<lambda>n vid. Inl Rejected),
       getChannelVideos = (\<lambda>n cid. Inl Rejected),
       getRecommendedVideos = (\<lambda>n. Inr \<lparr> pageVideos = vs \<rparr>),
       parseDuration = (\<lambda>iso d. 30) \<rparr>"

definition noDraws :: rng where
  "noDraws = ((\<lambda>k. 0), 0)"

definition mixSourceHiding :: "string list \<Rightarrow> string list \<Rightarrow> MixSource" where
  "mixSourceHiding hidden blocked =
     \<lparr> watchHistory = [], searchHistory = [], subscribedChannels = [], shortsHistory = None,
       mixNgKeywords = [], mixNgChannels = map (\<lambda>c. \<lparr> blockedId = str c \<rparr>) blocked,
       hiddenVideos = map (\<lambda>i. \<lparr> hiddenId = str i \<rparr>) hidden, negativeKeywords = [] \<rparr>"

definition coldStart :: "string list \<Rightarrow> RecommendationSource" where
  "coldStart blocked =
     \<lparr> watchHistory = [], searchHistory = [], subscribedChannels = [],
       ngKeywords = [], ngChannels = map str blocked \<rparr>"

text \<open>The scenario of the specification: the profile that gives weight 5 to \<open>music\<close>, and
  a candidate titled \<open>music video\<close> with 1,000,000 views, uploaded 2 days ago (the digit 2
  followed by U+65E5 U+524D).\<close>

definition musicProfile :: UserProfile where
  "musicProfile = \<lparr> keywordWeights = [(str ''music'', 5)] \<rparr>"

definition musicVideo :: Video where
  "musicVideo =
     \<lparr> videoId = str ''m1'', title = str ''music video'', channelId = str ''c1'',
       channelName = str ''Studio'', views = str ''1,000,000 views'',
       uploadedAt = [50, 0x65E5, 0x524D], duration = str ''3:00'', isoDuration = str ''PT3M'',
       descriptionSnippet = None \<rparr>"

text \<open>A second candidate, whose keywords come from all three texts and repeat: a profile
  that weighs \<open>music\<close>, \<open>studio\<close> and \<open>live\<close>, and a video of the channel \<open>Music Studio\<close>
  with 250 views, uploaded 30 days ago, described as \<open>live music\<close>.\<close>

definition liveProfile :: UserProfile where
  "liveProfile = \<lparr> keywordWeights = [(str ''music'', 5), (str ''studio'', 2), (str ''live'', 1)] \<rparr>"

definition liveVideo :: Video where
  "liveVideo =
     \<lparr> videoId = str ''l1'', title = str ''Music music video'', channelId = str ''c1'',
       channelName = str ''Music Studio'', views = str ''250 views'',
       uploadedAt = [51, 48, 0x65E5, 0x524D], duration = str ''3:00'', isoDuration = str ''PT3M'',
       descriptionSnippet = Some (str ''live music'') \<rparr>"

text \<open>An example of user sources: two search terms, one watched video (the one of the
  scoring scenario) and one subscribed channel.\<close>

definition exampleSources :: UserSources where
  "exampleSources =
     \<lparr> watchHistory = [musicVideo], searchHistory = [str ''cats'', str ''live music''],
       subscribedChannels = [\<lparr> chanId = str ''c1'', chanName = str ''Music Studio'' \<rparr>] \<rparr>"







section \<open>Keyword extraction: lemmas\<close>

lemmas extract_eval =
  extractKeywords_def str_def basicLatin_def replaceBrackets_def replaceSPZC_def bracketChars_def
  isWs_def js_length_def isKeyword_def JAPANESE_STOP_WORDS_def ENGLISH_STOP_WORDS_def allDigits_def
  isDigit_def dedupe_def Let_def

lemma split_ws_subset: "t \<in> set (split_ws cur s) \<Longrightarrow> set t \<subseteq> set cur \<union> set s"
proof (induction cur s rule: split_ws.induct)
  case (1 cur)
  then show ?case by simp
next
  case (2 cur c cs)
  show ?case
  proof (cases "isWs c")
    case True
    with 2 have "t = cur \<or> t \<in> set (split_ws [] (dropWhile isWs cs))" by simp
    then show ?thesis
    proof
      assume "t = cur" then show ?thesis by auto
    next
      assume "t \<in> set (split_ws [] (dropWhile isWs cs))"
      with 2(1)[OF True] have "set t \<subseteq> set (dropWhile isWs cs)" by simp
      moreover have "set (dropWhile isWs cs) \<subseteq> set cs" by (auto dest: set_dropWhileD)
      ultimately show ?thesis by auto
    qed
  next
    case False
    with 2 show ?thesis by auto
  qed
qed

lemma split_ws_no_ws:
  "t \<in> set (split_ws cur s) \<Longrightarrow> \<forall>c\<in>set cur. \<not> isWs c \<Longrightarrow> \<forall>c\<in>set t. \<not> isWs c"
proof (induction cur s rule: split_ws.induct)
  case (1 cur)
  then show ?case by simp
next
  case (2 cur c cs)
  show ?case
  proof (cases "isWs c")
    case True
    with 2 show ?thesis by auto
  next
    case False
    with 2 show ?thesis by auto
  qed
qed

lemma split_ws_token: "\<forall>c\<in>set k. \<not> isWs c \<Longrightarrow> split_ws cur (k @ rest) = split_ws (cur @ k) rest"
  by (induction k arbitrary: cur) auto

lemma split_ws_join:
  "ks \<noteq> [] \<Longrightarrow> \<forall>k\<in>set ks. k \<noteq> [] \<and> (\<forall>c\<in>set k. \<not> isWs c) \<Longrightarrow> split_ws [] (join_sp ks) = ks"
proof (induction ks rule: join_sp.induct)
  case 1
  then show ?case by simp
next
  case (2 x)
  then have "split_ws [] (x @ []) = split_ws ([] @ x) []" by (intro split_ws_token) simp
  then show ?case by simp
next
  case (3 x y ys)
  from 3(3) obtain a y' where y: "y = a # y'" and a: "\<not> isWs a" by (cases y) auto
  have ws32: "isWs 32" by (simp add: isWs_def)
  have "split_ws [] (join_sp (x # y # ys)) = split_ws ([] @ x) ([32] @ join_sp (y # ys))"
    using 3(3) by (simp add: split_ws_token)
  also have "\<dots> = x # split_ws [] (dropWhile isWs (join_sp (y # ys)))"
    using ws32 by simp
  also have "dropWhile isWs (join_sp (y # ys)) = join_sp (y # ys)"
    using y a by (cases ys) auto
  also have "split_ws [] (join_sp (y # ys)) = y # ys" using 3 by simp
  finally show ?case .
qed

lemma set_set_add_all: "set (set_add_all acc xs) = set acc \<union> set xs"
  by (induction xs arbitrary: acc) auto

lemma distinct_set_add_all: "distinct acc \<Longrightarrow> distinct (set_add_all acc xs)"
  by (induction xs arbitrary: acc) auto

lemma set_add_all_distinct: "distinct (acc @ xs) \<Longrightarrow> set_add_all acc xs = acc @ xs"
  by (induction xs arbitrary: acc) auto

lemma set_dedupe: "set (dedupe xs) = set xs"
  by (simp add: dedupe_def set_set_add_all)

lemma distinct_dedupe: "distinct (dedupe xs)"
  by (simp add: dedupe_def distinct_set_add_all)

lemma dedupe_distinct: "distinct xs \<Longrightarrow> dedupe xs = xs"
  by (simp add: dedupe_def set_add_all_distinct)

lemma distinct_extractKeywords: "distinct (extractKeywords U text)"
  by (simp add: extractKeywords_def Let_def distinct_dedupe)

lemma set_join_sp: "set (join_sp ks) \<subseteq> insert 32 (\<Union>(set ` set ks))"
  by (induction ks rule: join_sp.induct) auto

lemma extractKeywords_token:
  assumes "k \<in> set (extractKeywords U text)"
  shows "1 < js_length k" and "isKeyword k" and "\<forall>c\<in>set k. \<not> isWs c"
    and "\<forall>c\<in>set k. \<not> catSPZC U c" and "\<forall>c\<in>set k. c \<notin> set bracketChars"
    and "set k \<subseteq> set (toLowerCase U text)"
proof -
  let ?cl = "replaceBrackets (replaceSPZC U (toLowerCase U text))"
  from assms have k: "k \<in> set (split_ws [] ?cl)" and len: "1 < js_length k" and kw: "isKeyword k"
    by (auto simp: extractKeywords_def Let_def set_dedupe split: if_splits)
  show "1 < js_length k" by (rule len)
  show "isKeyword k" by (rule kw)
  have nows: "\<forall>c\<in>set k. \<not> isWs c" using split_ws_no_ws[OF k] by simp
  then show "\<forall>c\<in>set k. \<not> isWs c" .
  have sub: "set k \<subseteq> set ?cl" using split_ws_subset[OF k] by simp
  have ws32: "isWs 32" by (simp add: isWs_def)
  have cl: "\<And>c. c \<in> set ?cl \<Longrightarrow> c = 32 \<or> (\<not> catSPZC U c \<and> c \<notin> set bracketChars \<and> c \<in> set (toLowerCase U text))"
    by (auto simp: replaceBrackets_def replaceSPZC_def split: if_splits)
  have each: "\<And>c. c \<in> set k \<Longrightarrow> \<not> catSPZC U c \<and> c \<notin> set bracketChars \<and> c \<in> set (toLowerCase U text)"
  proof -
    fix c assume c: "c \<in> set k"
    with nows ws32 have "c \<noteq> 32" by auto
    moreover from c sub have "c \<in> set ?cl" by auto
    ultimately show "\<not> catSPZC U c \<and> c \<notin> set bracketChars \<and> c \<in> set (toLowerCase U text)"
      using cl by blast
  qed
  show "\<forall>c\<in>set k. \<not> catSPZC U c" using each by blast
  show "\<forall>c\<in>set k. c \<notin> set bracketChars" using each by blast
  show "set k \<subseteq> set (toLowerCase U text)" using each by blast
qed

lemma js_length_nonempty: "1 < js_length k \<Longrightarrow> k \<noteq> []"
  by (auto simp: js_length_def)

lemma extractKeywords_join:
  assumes st: "lowerStable U"
  shows "extractKeywords U (join_sp (extractKeywords U text)) = extractKeywords U text"
proof (cases "extractKeywords U text = []")
  case True
  then show ?thesis by (simp add: extractKeywords_def)
next
  case False
  let ?ks = "extractKeywords U text"
  let ?j = "join_sp ?ks"
  have tok: "\<forall>k\<in>set ?ks. k \<noteq> [] \<and> (\<forall>c\<in>set k. \<not> isWs c)"
    using extractKeywords_token(1,3) js_length_nonempty by blast
  have split: "split_ws [] ?j = ?ks" using False tok by (rule split_ws_join)
  have jne: "?j \<noteq> []"
  proof
    assume "?j = []"
    then have "split_ws [] ?j = [[]]" by simp
    with split have "?ks = [[]]" by simp
    with tok show False by simp
  qed
  have chars: "set ?j \<subseteq> insert 32 (\<Union>(set ` set ?ks))" by (rule set_join_sp)
  have "set ?j \<subseteq> insert 32 (set (toLowerCase U text))"
    using chars extractKeywords_token(6) by blast
  with st have low: "toLowerCase U ?j = ?j" by (auto simp: lowerStable_def)
  have r1: "replaceSPZC U ?j = ?j"
    unfolding replaceSPZC_def
  proof (rule map_idI)
    fix c assume "c \<in> set ?j"
    with chars have "c = 32 \<or> (\<exists>k\<in>set ?ks. c \<in> set k)" by auto
    then show "(if catSPZC U c then 32 else c) = c"
      using extractKeywords_token(4) by auto
  qed
  have r2: "replaceBrackets ?j = ?j"
    unfolding replaceBrackets_def
  proof (rule map_idI)
    fix c assume "c \<in> set ?j"
    with chars have "c = 32 \<or> (\<exists>k\<in>set ?ks. c \<in> set k)" by auto
    then show "(if c \<in> set bracketChars then 32 else c) = c"
      using extractKeywords_token(5) by auto
  qed
  have f1: "filter (\<lambda>word. 1 < js_length word) ?ks = ?ks"
    using extractKeywords_token(1) by (auto simp: filter_id_conv)
  have f2: "filter isKeyword ?ks = ?ks"
    using extractKeywords_token(2) by (auto simp: filter_id_conv)
  have f12: "filter (\<lambda>x. Suc 0 < js_length x \<and> isKeyword x) ?ks = ?ks"
    using extractKeywords_token(1,2) by (auto simp: filter_id_conv)
  have "extractKeywords U ?j = dedupe ?ks"
    using jne by (simp add: extractKeywords_def[of U ?j] Let_def low r1 r2 split f12)
  then show ?thesis by (simp add: dedupe_distinct distinct_extractKeywords)
qed

lemma lowerStable_basicLatin: "lowerStable basicLatin"
  unfolding lowerStable_def
proof (intro allI impI)
  fix s t :: jsstring
  let ?f = "\<lambda>c::nat. if 65 \<le> c \<and> c \<le> 90 then c + 32 else c"
  have low: "toLowerCase basicLatin = map ?f" by (simp add: basicLatin_def)
  assume a: "set t \<subseteq> insert 32 (set (toLowerCase basicLatin s))"
  have "map ?f t = t"
  proof (rule map_idI)
    fix c assume "c \<in> set t"
    with a have "c = 32 \<or> c \<in> ?f ` set s" by (auto simp: low)
    then show "?f c = c" by (auto split: if_splits)
  qed
  then show "toLowerCase basicLatin t = t" by (simp add: low)
qed


text \<open>
  Claim C9. The keyword extractor is idempotent: joining the extracted tokens with single
  spaces and extracting again gives the same tokens, in the same order, and so the same
  set. The case mapping of the platform is a parameter, so the statement asks that
  lower-casing is stable (\<open>lowerStable\<close>), as it is in Unicode.
\<close>

theorem extractKeywords_idempotent:
  "lowerStable U \<Longrightarrow>
     extractKeywords U (join_sp (extractKeywords U text)) = extractKeywords U text
     \<and> set (extractKeywords U (join_sp (extractKeywords U text))) = set (extractKeywords U text)"
  by (simp add: extractKeywords_join)

theorem extractKeywords_idempotent_witness:
  "lowerStable basicLatin
   \<and> join_sp (extractKeywords basicLatin (str ''Music Video [Official] the 2024 music''))
       = str ''music video official''
   \<and> extractKeywords basicLatin (str ''music video official'')
       = extractKeywords basicLatin (str ''Music Video [Official] the 2024 music'')"
proof -
  have e: "extractKeywords basicLatin (str ''Music Video [Official] the 2024 music'')
      = [str ''music'', str ''video'', str ''official'']"
    by (simp add: extract_eval)
  have j: "join_sp [str ''music'', str ''video'', str ''official''] = str ''music video official''"
    by (simp add: str_def)
  from extractKeywords_idempotent[OF lowerStable_basicLatin,
      of "str ''Music Video [Official] the 2024 music''"]
  show ?thesis by (simp only: e j lowerStable_basicLatin simp_thms)
qed

section \<open>Shuffling: lemmas\<close>

lemma mset_shuffleLoop:
  "i < length xs \<or> i = 0 \<Longrightarrow> mset (fst (shuffleLoop i r xs)) = mset xs"
proof (induction i arbitrary: r xs)
  case 0
  then show ?case by simp
next
  case (Suc i')
  then have len: "Suc i' < length xs" by simp
  obtain j r' where jr: "randomIndex r (Suc i' + 1) = (j, r')" by (cases "randomIndex r (Suc i' + 1)")
  then have "j < Suc i' + 1" by (auto simp: randomIndex_def)
  with len have jlen: "j < length xs" by simp
  let ?ys = "xs[Suc i' := xs ! j, j := xs ! Suc i']"
  have "mset ?ys = mset xs" using len jlen by (simp add: mset_swap)
  moreover have "mset (fst (shuffleLoop i' r' ?ys)) = mset ?ys"
    using len by (intro Suc.IH) simp
  ultimately show ?case using jr by (simp add: Let_def)
qed

lemma mset_shuffleArray: "mset (fst (shuffleArray r xs)) = mset xs"
  unfolding shuffleArray_def by (rule mset_shuffleLoop) (cases xs, auto)

lemma set_shuffleArray: "set (fst (shuffleArray r xs)) = set xs"
  by (metis mset_shuffleArray set_mset_mset)

lemma length_shuffleArray: "length (fst (shuffleArray r xs)) = length xs"
  by (metis mset_shuffleArray size_mset)

lemma distinct_map_shuffleArray:
  "distinct (map f (fst (shuffleArray r xs))) = distinct (map f xs)"
proof -
  have "mset (map f (fst (shuffleArray r xs))) = mset (map f xs)"
    by (simp add: mset_shuffleArray)
  then show ?thesis by (rule mset_eq_imp_distinct_iff)
qed

lemma distinct_map_take: "distinct (map f xs) \<Longrightarrow> distinct (map f (take n xs))"
  by (simp add: take_map[symmetric])

section \<open>The filters: lemmas\<close>

lemma filterStep_inv:
  "filterInv sources seen0 st \<Longrightarrow> filterInv sources seen0 (filterStep U sources v st)"
  by (cases st) (auto simp: filterInv_def filterStep_def Let_def)

lemma filterAndDedupe_fold_inv:
  "filterInv sources seen0 st \<Longrightarrow> filterInv sources seen0 (fold (filterStep U sources) vs st)"
  by (induction vs arbitrary: st) (auto simp: filterStep_inv)

lemma filterAndDedupe_inv: "filterInv sources seen0 (filterAndDedupe U sources seen0 vs)"
  unfolding filterAndDedupe_def by (rule filterAndDedupe_fold_inv) (simp add: filterInv_def)

lemma filterStepShorts_inv:
  "filterInvShorts sources seen0 st \<Longrightarrow> filterInvShorts sources seen0 (filterStepShorts U sources v st)"
  by (cases st) (auto simp: filterInvShorts_def filterStepShorts_def Let_def)

lemma filterAndDedupeShorts_fold_inv:
  "filterInvShorts sources seen0 st \<Longrightarrow> filterInvShorts sources seen0 (fold (filterStepShorts U sources) vs st)"
  by (induction vs arbitrary: st) (auto simp: filterStepShorts_inv)

lemma filterAndDedupeShorts_inv: "filterInvShorts sources seen0 (filterAndDedupeShorts U sources seen0 vs)"
  unfolding filterAndDedupeShorts_def by (rule filterAndDedupeShorts_fold_inv) (simp add: filterInvShorts_def)

lemma numTrending: "nat \<lfloor>real TARGET_COUNT * TRENDING_RATIO\<rfloor> = 20"
  by (simp add: TARGET_COUNT_def TRENDING_RATIO_def)

lemma numPersonalized: "TARGET_COUNT - 20 = 30"
  by (simp add: TARGET_COUNT_def)

lemma numPersonalizedShorts: "SHORTS_TARGET_COUNT - 30 = 10"
  by (simp add: SHORTS_TARGET_COUNT_def)

lemma numPopular: "nat \<lfloor>real SHORTS_TARGET_COUNT * POPULAR_RATIO\<rfloor> = 30"
  by (simp add: SHORTS_TARGET_COUNT_def POPULAR_RATIO_def)

text \<open>The mixed feed of the main engine.\<close>

lemma mixFeed_props:
  "distinct (map videoId (mixFeed U r sources tr pe))"
  "length (mixFeed U r sources tr pe) \<le> 50"
  "\<forall>v\<in>set (mixFeed U r sources tr pe).
      videoId v \<notin> hiddenId ` set (hiddenVideos sources)
      \<and> channelId v \<notin> blockedId ` set (mixNgChannels sources)"
proof -
  let ?hid = "hiddenId ` set (hiddenVideos sources)"
  obtain ct s1 where ct: "filterAndDedupe U sources ?hid tr = (ct, s1)" by (cases "filterAndDedupe U sources ?hid tr")
  obtain cp s2 where cp: "filterAndDedupe U sources s1 pe = (cp, s2)" by (cases "filterAndDedupe U sources s1 pe")
  obtain st r1 where st: "shuffleArray r ct = (st, r1)" by (cases "shuffleArray r ct")
  obtain sp r2 where sp: "shuffleArray r1 cp = (sp, r2)" by (cases "shuffleArray r1 cp")
  let ?ff = "take 20 st @ take 30 sp"
  have feed: "mixFeed U r sources tr pe = fst (shuffleArray r2 ?ff)"
    by (simp add: mixFeed_def ct cp st sp numTrending numPersonalized Let_def)
  have i1: "filterInv sources ?hid (ct, s1)" using filterAndDedupe_inv[of sources ?hid U tr] ct by simp
  have i2: "filterInv sources s1 (cp, s2)" using filterAndDedupe_inv[of sources s1 U pe] cp by simp
  have mst: "mset st = mset ct" using mset_shuffleArray[of r ct] st by simp
  have msp: "mset sp = mset cp" using mset_shuffleArray[of r1 cp] sp by simp
  have sst: "set st = set ct" using mst by (metis set_mset_mset)
  have ssp: "set sp = set cp" using msp by (metis set_mset_mset)
  have dst: "distinct (map videoId st)" using distinct_map_shuffleArray[of videoId r ct] st i1 by (simp add: filterInv_def)
  have dsp: "distinct (map videoId sp)" using distinct_map_shuffleArray[of videoId r1 cp] sp i2 by (simp add: filterInv_def)
  have "videoId ` set ct \<subseteq> s1" using i1 by (auto simp: filterInv_def)
  moreover have "videoId ` set cp \<inter> s1 = {}" using i2 by (auto simp: filterInv_def)
  ultimately have disj: "videoId ` set st \<inter> videoId ` set sp = {}"
    unfolding sst ssp by blast
  have "distinct (map videoId ?ff)"
    using dst dsp disj by (auto simp: distinct_map_take dest!: in_set_takeD)
  then show "distinct (map videoId (mixFeed U r sources tr pe))"
    by (simp add: feed distinct_map_shuffleArray)
  show "length (mixFeed U r sources tr pe) \<le> 50"
    by (simp add: feed length_shuffleArray)
  have okct: "\<forall>v\<in>set ct. videoId v \<notin> ?hid \<and> channelId v \<notin> blockedId ` set (mixNgChannels sources)"
    using i1 unfolding filterInv_def by (simp add: subset_iff image_iff) blast
  have okcp: "\<forall>v\<in>set cp. videoId v \<notin> ?hid \<and> channelId v \<notin> blockedId ` set (mixNgChannels sources)"
    using i1 i2 unfolding filterInv_def by (simp add: subset_iff image_iff) blast
  have sub: "set ?ff \<subseteq> set ct \<union> set cp" using sst ssp by (auto dest: in_set_takeD)
  show "\<forall>v\<in>set (mixFeed U r sources tr pe).
      videoId v \<notin> hiddenId ` set (hiddenVideos sources)
      \<and> channelId v \<notin> blockedId ` set (mixNgChannels sources)"
    unfolding feed set_shuffleArray using okct okcp sub by blast
qed

lemma shortsFinalFeed_props:
  assumes "shortsFinalFeed U r sources pop pers = (ff, r2)"
  shows "distinct (map videoId ff)" and "length ff \<le> 40"
    and "\<forall>v\<in>set ff. videoId v \<notin> historyIdsOf sources
            \<and> videoId v \<notin> hiddenId ` set (hiddenVideos sources)
            \<and> channelId v \<notin> blockedId ` set (mixNgChannels sources)"
proof -
  obtain ct s1 where ct: "filterAndDedupeShorts U sources {} pop = (ct, s1)" by (cases "filterAndDedupeShorts U sources {} pop")
  obtain cp s2 where cp: "filterAndDedupeShorts U sources s1 pers = (cp, s2)" by (cases "filterAndDedupeShorts U sources s1 pers")
  obtain st r1 where st: "shuffleArray r ct = (st, r1)" by (cases "shuffleArray r ct")
  obtain sp r2' where sp: "shuffleArray r1 cp = (sp, r2')" by (cases "shuffleArray r1 cp")
  have ff: "ff = take 30 st @ take 10 sp"
    using assms by (simp add: shortsFinalFeed_def ct cp st sp numPopular numPersonalizedShorts Let_def)
  have i1: "filterInvShorts sources {} (ct, s1)" using filterAndDedupeShorts_inv[of sources "{}" U pop] ct by simp
  have i2: "filterInvShorts sources s1 (cp, s2)" using filterAndDedupeShorts_inv[of sources s1 U pers] cp by simp
  have sst: "set st = set ct" using set_shuffleArray[of r ct] st by simp
  have ssp: "set sp = set cp" using set_shuffleArray[of r1 cp] sp by simp
  have dst: "distinct (map videoId st)" using distinct_map_shuffleArray[of videoId r ct] st i1 by (simp add: filterInvShorts_def)
  have dsp: "distinct (map videoId sp)" using distinct_map_shuffleArray[of videoId r1 cp] sp i2 by (simp add: filterInvShorts_def)
  have "videoId ` set ct \<subseteq> s1" using i1 by (auto simp: filterInvShorts_def)
  moreover have "videoId ` set cp \<inter> s1 = {}" using i2 by (auto simp: filterInvShorts_def)
  ultimately have disj: "videoId ` set st \<inter> videoId ` set sp = {}"
    unfolding sst ssp by blast
  show "distinct (map videoId ff)"
    unfolding ff using dst dsp disj by (auto simp: distinct_map_take dest!: in_set_takeD)
  show "length ff \<le> 40" unfolding ff by simp
  have okct: "\<forall>v\<in>set ct. videoId v \<notin> historyIdsOf sources
            \<and> videoId v \<notin> hiddenId ` set (hiddenVideos sources)
            \<and> channelId v \<notin> blockedId ` set (mixNgChannels sources)"
    using i1 unfolding filterInvShorts_def by simp
  have okcp: "\<forall>v\<in>set cp. videoId v \<notin> historyIdsOf sources
            \<and> videoId v \<notin> hiddenId ` set (hiddenVideos sources)
            \<and> channelId v \<notin> blockedId ` set (mixNgChannels sources)"
    using i2 unfolding filterInvShorts_def by simp
  have sub: "set ff \<subseteq> set ct \<union> set cp" unfolding ff using sst ssp by (auto dest: in_set_takeD)
  show "\<forall>v\<in>set ff. videoId v \<notin> historyIdsOf sources
            \<and> videoId v \<notin> hiddenId ` set (hiddenVideos sources)
            \<and> channelId v \<notin> blockedId ` set (mixNgChannels sources)"
    using okct okcp sub by blast
qed

lemma mixShorts_main:
  assumes "fst (shortsFinalFeed U r sources pop pers) \<noteq> []"
  shows "distinct (map videoId (mixShorts U r sources pop pers))"
    and "\<forall>v\<in>set (mixShorts U r sources pop pers).
            videoId v \<notin> hiddenId ` set (hiddenVideos sources)
            \<and> channelId v \<notin> blockedId ` set (mixNgChannels sources)"
proof -
  obtain ff r2 where ff: "shortsFinalFeed U r sources pop pers = (ff, r2)" by (cases "shortsFinalFeed U r sources pop pers")
  with assms have ne: "ff \<noteq> []" by simp
  have m: "mixShorts U r sources pop pers = fst (shuffleArray r2 ff)"
    using ne by (simp add: mixShorts_def ff)
  show "distinct (map videoId (mixShorts U r sources pop pers))"
    unfolding m using shortsFinalFeed_props(1)[OF ff] by (simp add: distinct_map_shuffleArray)
  show "\<forall>v\<in>set (mixShorts U r sources pop pers).
            videoId v \<notin> hiddenId ` set (hiddenVideos sources)
            \<and> channelId v \<notin> blockedId ` set (mixNgChannels sources)"
    unfolding m set_shuffleArray using shortsFinalFeed_props(3)[OF ff] by blast
qed

lemma mixShorts_any:
  shows "length (mixShorts U r sources pop pers) \<le> 40"
    and "\<forall>v\<in>set (mixShorts U r sources pop pers). videoId v \<notin> historyIdsOf sources"
proof -
  obtain ff r2 where ff: "shortsFinalFeed U r sources pop pers = (ff, r2)" by (cases "shortsFinalFeed U r sources pop pers")
  show "length (mixShorts U r sources pop pers) \<le> 40"
    using shortsFinalFeed_props(2)[OF ff] by (cases "ff = []") (simp_all add: mixShorts_def ff length_shuffleArray)
  show "\<forall>v\<in>set (mixShorts U r sources pop pers). videoId v \<notin> historyIdsOf sources"
  proof (cases "ff = []")
    case True
    then have "mixShorts U r sources pop pers
        = take 20 (fst (shuffleArray r2 (filter (\<lambda>v. videoId v \<notin> historyIdsOf sources) pop)))"
      by (simp add: mixShorts_def ff)
    then show ?thesis by (auto dest!: in_set_takeD simp: set_shuffleArray)
  next
    case False
    then have "mixShorts U r sources pop pers = fst (shuffleArray r2 ff)"
      by (simp add: mixShorts_def ff)
    then show ?thesis using shortsFinalFeed_props(3)[OF ff] by (simp add: set_shuffleArray)
  qed
qed

section \<open>Promises: lemmas\<close>

lemma promise_all_caught:
  "\<forall>p\<in>set ps. \<exists>v. p = Inr v \<Longrightarrow> promise_all ps = Inr (map projr ps)"
  by (induction ps) auto

lemma catch_p_Inr: "\<exists>v. catch_p p h = Inr v"
  by (cases p) (auto simp: catch_p_def)

lemma mixRawPools_fulfils: "\<exists>tr pe r1. mixRawPools U A r sources = Inr (tr, pe, r1)"
proof -
  obtain seeds r1 where s: "personalizedSeeds r sources = (seeds, r1)" by (cases "personalizedSeeds r sources")
  let ?ps = "map (\<lambda>(n, query). catch_p (then_p (searchVideos A n query (str ''1'')) videos) (\<lambda>_. []))
              (enumerate 0 seeds)"
  have "\<forall>p\<in>set ?ps. \<exists>v. p = Inr v" by (auto simp: catch_p_Inr)
  then have pa: "promise_all ?ps = Inr (map projr ?ps)" by (rule promise_all_caught)
  obtain tv where tv: "catch_p (then_p (getRecommendedVideos A (length seeds)) pageVideos) (\<lambda>_. []) = Inr tv"
    using catch_p_Inr[of "then_p (getRecommendedVideos A (length seeds)) pageVideos" "\<lambda>_. []"] by blast
  show ?thesis by (simp add: mixRawPools_def s pa tv await_def Let_def)
qed

lemma shortsRawPools_fulfils: "\<exists>pop pers r1. shortsRawPools U A r sources = Inr (pop, pers, r1)"
proof -
  obtain seeds r1 where s: "shortsSeeds r sources = (seeds, r1)" by (cases "shortsSeeds r sources")
  let ?ps = "map (\<lambda>(n, query).
                   catch_p (then_p (searchVideos A n query (str ''1''))
                              (\<lambda>res. filter (isShortVideo U A) (videos res @ shorts res)))
                     (\<lambda>_. []))
              (enumerate 1 seeds)"
  have "\<forall>p\<in>set ?ps. \<exists>v. p = Inr v" by (auto simp: catch_p_Inr)
  then have pa: "promise_all ?ps = Inr (map projr ?ps)" by (rule promise_all_caught)
  obtain pv where pv: "catch_p (then_p (getRecommendedVideos A 0) (\<lambda>res. filter (isShortVideo U A) (pageVideos res))) (\<lambda>_. []) = Inr pv"
    using catch_p_Inr[of "then_p (getRecommendedVideos A 0) (\<lambda>res. filter (isShortVideo U A) (pageVideos res))" "\<lambda>_. []"] by blast
  show ?thesis using pa by (simp add: shortsRawPools_def s pv await_def Let_def)
qed

section \<open>Ranking: lemmas\<close>

lemma scoreStep_inv:
  "scoreInv U p ctx vs seen0 st \<Longrightarrow> v \<in> set vs \<Longrightarrow> scoreInv U p ctx vs seen0 (scoreStep U p ctx v st)"
  by (cases st) (auto simp: scoreInv_def scoreStep_def Let_def)

lemma scoreVideos_fold_inv:
  "scoreInv U p ctx vs seen0 st \<Longrightarrow> set ws \<subseteq> set vs
     \<Longrightarrow> scoreInv U p ctx vs seen0 (fold (scoreStep U p ctx) ws st)"
  by (induction ws arbitrary: st) (auto simp: scoreStep_inv)

lemma scoreVideos_props:
  shows "distinct (map (videoId \<circ> fst) (scoreVideos U vs p ctx))"
    and "\<forall>sv\<in>set (scoreVideos U vs p ctx).
            videoId (fst sv) \<notin> videoId ` set (ctx_watchHistory ctx)
            \<and> fst sv \<in> set vs \<and> snd sv = finalScore U p (fst sv)
            \<and> channelId (fst sv) \<notin> set (ctx_ngChannels ctx)"
proof -
  let ?seen0 = "videoId ` set (ctx_watchHistory ctx)"
  have "scoreInv U p ctx vs ?seen0 (fold (scoreStep U p ctx) vs ([], ?seen0))"
    by (rule scoreVideos_fold_inv) (simp_all add: scoreInv_def)
  then show "distinct (map (videoId \<circ> fst) (scoreVideos U vs p ctx))"
    and "\<forall>sv\<in>set (scoreVideos U vs p ctx).
            videoId (fst sv) \<notin> videoId ` set (ctx_watchHistory ctx)
            \<and> fst sv \<in> set vs \<and> snd sv = finalScore U p (fst sv)
            \<and> channelId (fst sv) \<notin> set (ctx_ngChannels ctx)"
    unfolding scoreInv_def scoreVideos_def by (simp, fastforce)
qed

lemma mset_sortByScore: "mset (sortByScore xs) = mset xs"
  by (simp add: sortByScore_def)

lemma diversityStep_pair:
  "diversityStep v (out, cc) =
     (if (case cc (channelId v) of None \<Rightarrow> 0 | Some n \<Rightarrow> n) < MAX_FROM_SAME_CHANNEL
      then (out @ [v], cc(channelId v \<mapsto> (case cc (channelId v) of None \<Rightarrow> 0 | Some n \<Rightarrow> n) + 1))
      else (out, cc))"
  by (simp add: diversityStep_def Let_def)

lemma diversityStep_inv: "divInv st \<Longrightarrow> divInv (diversityStep v st)"
  by (cases st) (auto simp: divInv_def diversityStep_def Let_def channelOccurrences_def
      MAX_FROM_SAME_CHANNEL_def split: option.splits)

lemma diversify_fold_inv: "divInv st \<Longrightarrow> divInv (fold diversityStep vs st)"
  by (induction vs arbitrary: st) (auto simp: diversityStep_inv)

lemma diversify_inv: "divInv (fold diversityStep vs ([], Map.empty))"
  by (rule diversify_fold_inv) (simp add: divInv_def channelOccurrences_def)

lemma diversify_cap: "channelOccurrences c (diversify vs) \<le> 3"
  using diversify_inv[of vs] by (simp add: divInv_def diversify_def)

lemma diversify_fold_subseq:
  "\<exists>ys. fst (fold diversityStep vs (out, cc)) = out @ ys \<and> subseq ys vs"
proof (induction vs arbitrary: out cc)
  case Nil
  then show ?case by simp
next
  case (Cons v vs)
  show ?case
  proof (cases "(case cc (channelId v) of None \<Rightarrow> 0 | Some n \<Rightarrow> n) < MAX_FROM_SAME_CHANNEL")
    case True
    let ?cc = "cc(channelId v \<mapsto> (case cc (channelId v) of None \<Rightarrow> 0 | Some n \<Rightarrow> n) + 1)"
    from Cons[of "out @ [v]" ?cc] obtain ys where
      "fst (fold diversityStep vs (out @ [v], ?cc)) = (out @ [v]) @ ys" "subseq ys vs" by blast
    with True show ?thesis by (intro exI[of _ "v # ys"]) (simp add: diversityStep_pair)
  next
    case False
    from Cons[of out cc] obtain ys where
      "fst (fold diversityStep vs (out, cc)) = out @ ys" "subseq ys vs" by blast
    with False show ?thesis by (intro exI[of _ ys]) (simp add: diversityStep_pair list_emb_Cons)
  qed
qed

lemma subseq_distinct: "subseq xs ys \<Longrightarrow> distinct ys \<Longrightarrow> distinct xs"
  by (induction rule: list_emb.induct) (auto dest: list_emb_set)

lemma diversify_subseq: "subseq (diversify vs) vs"
  using diversify_fold_subseq[of vs "[]" Map.empty] by (auto simp: diversify_def)

lemma diversify_snoc:
  "diversify (vs @ [v]) =
     diversify vs @ (if channelOccurrences (channelId v) (diversify vs) < 3 then [v] else [])"
proof -
  obtain out cc where st: "fold diversityStep vs ([], Map.empty) = (out, cc)"
    by (cases "fold diversityStep vs ([], Map.empty)")
  have "divInv (out, cc)" using diversify_inv[of vs] st by simp
  then have "(case cc (channelId v) of None \<Rightarrow> 0 | Some n \<Rightarrow> n) = channelOccurrences (channelId v) out"
    by (simp add: divInv_def)
  then show ?thesis
    by (simp add: diversify_def st diversityStep_pair MAX_FROM_SAME_CHANNEL_def)
qed

lemma rankVideos_props:
  shows "distinct (map videoId (rankVideos U vs p ctx))"
    and "\<forall>v\<in>set (rankVideos U vs p ctx).
            videoId v \<notin> videoId ` set (ctx_watchHistory ctx) \<and> v \<in> set vs
            \<and> channelId v \<notin> set (ctx_ngChannels ctx)"
    and "channelOccurrences c (rankVideos U vs p ctx) \<le> 3"
proof -
  let ?sc = "scoreVideos U vs p ctx"
  let ?so = "map fst (sortByScore ?sc)"
  have ms: "mset ?so = mset (map fst ?sc)" by (simp add: mset_sortByScore)
  have "mset (map videoId ?so) = mset (map videoId (map fst ?sc))" using ms by (metis mset_map)
  then have "distinct (map videoId ?so) = distinct (map videoId (map fst ?sc))"
    by (rule mset_eq_imp_distinct_iff)
  then have d: "distinct (map videoId ?so)" using scoreVideos_props(1)[of U vs p ctx] by simp
  have sub: "subseq (rankVideos U vs p ctx) ?so" unfolding rankVideos_def by (rule diversify_subseq)
  then have "subseq (map videoId (rankVideos U vs p ctx)) (map videoId ?so)" by (rule subseq_map)
  then show "distinct (map videoId (rankVideos U vs p ctx))" using d subseq_distinct by blast
  have "set ?so = fst ` set ?sc" using ms by (metis mset_map set_mset_mset set_map)
  moreover have "set (rankVideos U vs p ctx) \<subseteq> set ?so" using sub by (auto dest: list_emb_set)
  ultimately show "\<forall>v\<in>set (rankVideos U vs p ctx).
            videoId v \<notin> videoId ` set (ctx_watchHistory ctx) \<and> v \<in> set vs
            \<and> channelId v \<notin> set (ctx_ngChannels ctx)"
    using scoreVideos_props(2)[of U vs p ctx] by fastforce
  show "channelOccurrences c (rankVideos U vs p ctx) \<le> 3"
    unfolding rankVideos_def by (rule diversify_cap)
qed

lemmas promise_eval = then_p_def catch_p_def await_def allSettled_def

lemmas fixture_eval = exampleVideo_def onlyTrending_def noDraws_def mixSourceHiding_def coldStart_def

lemmas shuffle_eval = shuffleArray_def randomIndex_def

lemmas mix_eval =
  getXraiShorts_def shortsRawPools_def shortsSeeds_def mixShorts_def shortsFinalFeed_def
  filterAndDedupeShorts_def filterStepShorts_def historyIdsOf_def isShortVideo_def
  getXraiRecommendationsMix_def mixRawPools_def personalizedSeeds_def mixFeed_def
  filterAndDedupe_def filterStep_def matchesNgKeyword_def negativeScore_def get_or_0_def
  takesFallback_def

section \<open>The engines: lemmas\<close>

lemma getXraiRecommendationsMix_cases:
  assumes "getXraiRecommendationsMix U A r sources = Inr feed"
  obtains tr pe r1 where "mixRawPools U A r sources = Inr (tr, pe, r1)"
    and "feed = mixFeed U r1 sources tr pe"
proof -
  from mixRawPools_fulfils[of U A r sources] obtain tr pe r1
    where p: "mixRawPools U A r sources = Inr (tr, pe, r1)" by blast
  with assms have "feed = mixFeed U r1 sources tr pe"
    by (simp add: getXraiRecommendationsMix_def await_def)
  with p show thesis by (rule that)
qed

lemma getXraiShorts_cases:
  assumes "getXraiShorts U A r sources = Inr feed"
  obtains pop pers r1 where "shortsRawPools U A r sources = Inr (pop, pers, r1)"
    and "feed = mixShorts U r1 sources pop pers"
proof -
  from shortsRawPools_fulfils[of U A r sources] obtain pop pers r1
    where p: "shortsRawPools U A r sources = Inr (pop, pers, r1)" by blast
  with assms have "feed = mixShorts U r1 sources pop pers"
    by (simp add: getXraiShorts_def await_def)
  with p show thesis by (rule that)
qed

lemma gatherCandidates_fulfils:
  "gatherCandidates U A r sources =
     Inr (collectFulfilled (candidatePromises A
            (sourceCalls r sources (buildUserProfile U (userSourcesOf sources)))))"
  by (simp add: gatherCandidates_def await_def allSettled_def Let_def)

lemma getXraiRecommendations_eq:
  "getXraiRecommendations U A r sources =
     Inr (take 50 (rankVideos U
            (collectFulfilled (candidatePromises A
               (sourceCalls r sources (buildUserProfile U (userSourcesOf sources)))))
            (buildUserProfile U (userSourcesOf sources)) (scoringContextOf sources)))"
  by (simp add: getXraiRecommendations_def gatherCandidates_fulfils await_def Let_def)

lemma channelOccurrences_take: "channelOccurrences c (take n xs) \<le> channelOccurrences c xs"
proof -
  have "length (filter (\<lambda>v. channelId v = c) (take n xs))
      \<le> length (filter (\<lambda>v. channelId v = c) (take n xs @ drop n xs))"
    unfolding filter_append by simp
  then show ?thesis by (simp add: channelOccurrences_def)
qed

lemma getXraiRecommendations_props:
  assumes "getXraiRecommendations U A r sources = Inr feed"
  shows "distinct (map videoId feed)" and "length feed \<le> 50"
    and "\<forall>v\<in>set feed. videoId v \<notin> videoId ` set (watchHistory sources)
            \<and> channelId v \<notin> set (ngChannels sources)"
    and "channelOccurrences c feed \<le> 3"
proof -
  let ?p = "buildUserProfile U (userSourcesOf sources)"
  let ?cands = "collectFulfilled (candidatePromises A (sourceCalls r sources ?p))"
  let ?rk = "rankVideos U ?cands ?p (scoringContextOf sources)"
  have feed: "feed = take 50 ?rk" using assms by (simp add: getXraiRecommendations_eq)
  show "distinct (map videoId feed)"
    unfolding feed using rankVideos_props(1)[of U ?cands ?p "scoringContextOf sources"]
    by (rule distinct_map_take)
  show "length feed \<le> 50" unfolding feed by simp
  have "set feed \<subseteq> set ?rk" unfolding feed by (rule set_take_subset)
  then show "\<forall>v\<in>set feed. videoId v \<notin> videoId ` set (watchHistory sources)
            \<and> channelId v \<notin> set (ngChannels sources)"
    using rankVideos_props(2)[of U ?cands ?p "scoringContextOf sources"]
    by (auto simp: scoringContextOf_def)
  have "channelOccurrences c feed \<le> channelOccurrences c ?rk"
    unfolding feed by (rule channelOccurrences_take)
  also have "\<dots> \<le> 3" by (rule rankVideos_props(3))
  finally show "channelOccurrences c feed \<le> 3" .
qed

lemma getXraiRecommendationsMix_props:
  assumes "getXraiRecommendationsMix U A r sources = Inr feed"
  shows "distinct (map videoId feed)" and "length feed \<le> 50"
    and "\<forall>v\<in>set feed. videoId v \<notin> hiddenId ` set (hiddenVideos sources)
            \<and> channelId v \<notin> blockedId ` set (mixNgChannels sources)"
proof -
  from assms obtain tr pe r1 where feed: "feed = mixFeed U r1 sources tr pe"
    by (rule getXraiRecommendationsMix_cases)
  show "distinct (map videoId feed)" unfolding feed by (rule mixFeed_props(1))
  show "length feed \<le> 50" unfolding feed by (rule mixFeed_props(2))
  show "\<forall>v\<in>set feed. videoId v \<notin> hiddenId ` set (hiddenVideos sources)
            \<and> channelId v \<notin> blockedId ` set (mixNgChannels sources)"
    unfolding feed by (rule mixFeed_props(3))
qed

lemma getXraiShorts_props:
  assumes "getXraiShorts U A r sources = Inr feed"
  shows "length feed \<le> 40"
    and "\<forall>v\<in>set feed. videoId v \<notin> historyIdsOf sources"
    and "\<not> takesFallback U A r sources \<Longrightarrow> distinct (map videoId feed)"
    and "\<not> takesFallback U A r sources \<Longrightarrow>
           \<forall>v\<in>set feed. videoId v \<notin> hiddenId ` set (hiddenVideos sources)
              \<and> channelId v \<notin> blockedId ` set (mixNgChannels sources)"
proof -
  from assms obtain pop pers r1 where p: "shortsRawPools U A r sources = Inr (pop, pers, r1)"
    and feed: "feed = mixShorts U r1 sources pop pers" by (rule getXraiShorts_cases)
  show "length feed \<le> 40" unfolding feed by (rule mixShorts_any(1))
  show "\<forall>v\<in>set feed. videoId v \<notin> historyIdsOf sources" unfolding feed by (rule mixShorts_any(2))
  {
    assume "\<not> takesFallback U A r sources"
    then have ne: "fst (shortsFinalFeed U r1 sources pop pers) \<noteq> []"
      by (simp add: takesFallback_def p)
    show "distinct (map videoId feed)" unfolding feed using ne by (rule mixShorts_main(1))
    show "\<forall>v\<in>set feed. videoId v \<notin> hiddenId ` set (hiddenVideos sources)
              \<and> channelId v \<notin> blockedId ` set (mixNgChannels sources)"
      unfolding feed using ne by (rule mixShorts_main(2))
  }
qed

section \<open>Evaluation on examples\<close>

lemma relevanceScore_empty_profile: "relevanceScore U \<lparr> keywordWeights = [] \<rparr> text = 0"
proof -
  have "fold (\<lambda>kw relevance. relevance) xs a = a" for xs :: "jsstring list" and a :: real
    by (induction xs) auto
  then show ?thesis by (simp add: relevanceScore_def)
qed

lemma finalScore_exampleVideo:
  "finalScore basicLatin \<lparr> keywordWeights = [] \<rparr> (exampleVideo i t c) = 3 / 10"
proof -
  have p: "popularityScore (exampleVideo i t c) = 1"
    by (simp add: popularityScore_def parseViews_def parseIntDigits_def isDigit_def exampleVideo_def str_def)
  have "parseUploadedAt basicLatin (str ''3 days ago'') = 999"
    by (simp add: parseUploadedAt_def matchDigits_def parseIntDigits_def isDigit_def str_def basicLatin_def
        minutesAgo_def hoursAgo_def daysAgoMark_def weeksAgo_def monthsAgo_def yearsAgo_def Let_def)
  then have f: "freshnessScore basicLatin (exampleVideo i t c) = 0"
    by (simp add: freshnessScore_def exampleVideo_def)
  show ?thesis by (simp add: finalScore_def relevanceScore_empty_profile p f)
qed

lemma buildUserProfile_coldStart:
  "buildUserProfile U (userSourcesOf (coldStart blocked)) = \<lparr> keywordWeights = [] \<rparr>"
  by (simp add: buildUserProfile_def userSourcesOf_def coldStart_def)

lemma sourceCalls_coldStart:
  "sourceCalls r (coldStart blocked) \<lparr> keywordWeights = [] \<rparr> = [Fallback]"
  by (simp add: sourceCalls_def coldStart_def topKeywords_def)

lemma gather_coldStart:
  "collectFulfilled (candidatePromises (onlyTrending vs)
       (sourceCalls r (coldStart blocked) \<lparr> keywordWeights = [] \<rparr>))
     = take 20 vs"
  by (simp add: sourceCalls_coldStart candidatePromises_def issue_def
      collectFulfilled_def onlyTrending_def promise_eval)

lemmas rank_eval =
  rankVideos_def scoreVideos_def scoreStep_def sortByScore_def diversify_def diversityStep_pair
  MAX_FROM_SAME_CHANNEL_def scoringContextOf_def

lemma ids_exampleVideo [simp]:
  "videoId (exampleVideo i t c) = str i" "channelId (exampleVideo i t c) = str c"
  by (simp_all add: exampleVideo_def)

lemma str_eq_iff [simp]: "str a = str b \<longleftrightarrow> a = b"
proof -
  have "inj (of_char :: char \<Rightarrow> nat)" by (rule injI) (metis char_of_comp_of_char comp_apply id_apply of_char_of)
  then show ?thesis by (auto simp: str_def dest: inj_map_eq_map[THEN iffD1, rotated])
qed

lemma str_Nil [simp]: "str i = [] \<longleftrightarrow> i = []"
  by (simp add: str_def)

lemma getXraiRecommendations_coldStart:
  "getXraiRecommendations U (onlyTrending vs) r (coldStart blocked)
     = Inr (take 50 (rankVideos U (take 20 vs) \<lparr> keywordWeights = [] \<rparr>
              \<lparr> ctx_ngKeywords = [], ctx_ngChannels = map str blocked, ctx_watchHistory = [] \<rparr>))"
proof -
  have "scoringContextOf (coldStart blocked)
      = \<lparr> ctx_ngKeywords = [], ctx_ngChannels = map str blocked, ctx_watchHistory = [] \<rparr>"
    by (simp add: scoringContextOf_def coldStart_def)
  then show ?thesis
    by (simp only: getXraiRecommendations_eq gather_coldStart buildUserProfile_coldStart)
qed

lemma evRank:
  "getXraiRecommendations basicLatin
       (onlyTrending [exampleVideo ''a1'' ''Cats'' ''c1'', exampleVideo ''a2'' ''Dogs'' ''c2'',
                      exampleVideo ''a3'' ''Birds'' ''c3''])
       noDraws (coldStart [''c3''])
     = Inr [exampleVideo ''a1'' ''Cats'' ''c1'', exampleVideo ''a2'' ''Dogs'' ''c2'']"
  by (simp add: getXraiRecommendations_coldStart rank_eval finalScore_exampleVideo)

lemma evRank4:
  "getXraiRecommendations basicLatin
       (onlyTrending [exampleVideo ''a1'' ''Cats'' ''c1'', exampleVideo ''a2'' ''Dogs'' ''c1'',
                      exampleVideo ''a3'' ''Birds'' ''c1'', exampleVideo ''a4'' ''Fish'' ''c1''])
       noDraws (coldStart [])
     = Inr [exampleVideo ''a1'' ''Cats'' ''c1'', exampleVideo ''a2'' ''Dogs'' ''c1'',
            exampleVideo ''a3'' ''Birds'' ''c1'']"
  by (simp add: getXraiRecommendations_coldStart rank_eval finalScore_exampleVideo)

lemma evMix:
  "getXraiRecommendationsMix basicLatin
       (onlyTrending [exampleVideo ''a1'' ''Cats'' ''c1'', exampleVideo ''a2'' ''Dogs'' ''c2'',
                      exampleVideo ''a3'' ''Birds'' ''c3''])
       noDraws (mixSourceHiding [''a1''] [''c3''])
     = Inr [exampleVideo ''a2'' ''Dogs'' ''c2'']"
  by (simp add: mix_eval promise_eval fixture_eval shuffle_eval numTrending numPersonalized extract_eval)

lemma evShorts:
  "getXraiShorts basicLatin
       (onlyTrending [exampleVideo ''a1'' ''Cats'' ''c1'', exampleVideo ''a2'' ''Dogs'' ''c2'',
                      exampleVideo ''a3'' ''Birds'' ''c3''])
       noDraws (mixSourceHiding [''a1''] [''c3''])
     = Inr [exampleVideo ''a2'' ''Dogs'' ''c2'']"
  by (simp add: mix_eval promise_eval fixture_eval shuffle_eval numPopular numPersonalizedShorts extract_eval)

lemma evShortsMain:
  "\<not> takesFallback basicLatin
       (onlyTrending [exampleVideo ''a1'' ''Cats'' ''c1'', exampleVideo ''a2'' ''Dogs'' ''c2'',
                      exampleVideo ''a3'' ''Birds'' ''c3''])
       noDraws (mixSourceHiding [''a1''] [''c3''])"
  by (simp add: mix_eval promise_eval fixture_eval shuffle_eval numPopular numPersonalizedShorts extract_eval)

lemma hidden_mixSourceHiding [simp]:
  "hiddenId ` set (hiddenVideos (mixSourceHiding hidden blocked)) = str ` set hidden"
  "blockedId ` set (mixNgChannels (mixSourceHiding hidden blocked)) = str ` set blocked"
  "historyIdsOf (mixSourceHiding hidden blocked) = {}"
  by (simp_all add: mixSourceHiding_def historyIdsOf_def image_image)

lemma ngChannels_coldStart [simp]:
  "ngChannels (coldStart blocked) = map str blocked" "watchHistory (coldStart blocked) = []"
  by (simp_all add: coldStart_def)

text \<open>
  Claim C1, as amended. No video of the main feed of the ratio-mix engine, and no video of
  the short-form feed unless the pass takes the fallback path, has an id in the hidden-video
  set or a channel id in the NG-channel set; on every path the short-form feed holds no
  video of the shorts history; the profile-ranked feed, which has no hidden-video set,
  holds no video of an NG channel.
\<close>

theorem feed_excludes_hidden_and_blocked:
  "(getXraiRecommendationsMix U A r sources = Inr feed1 \<longrightarrow>
      (\<forall>v\<in>set feed1. videoId v \<notin> hiddenId ` set (hiddenVideos sources)
          \<and> channelId v \<notin> blockedId ` set (mixNgChannels sources)))
   \<and> (getXraiShorts U A r sources = Inr feed2 \<and> \<not> takesFallback U A r sources \<longrightarrow>
      (\<forall>v\<in>set feed2. videoId v \<notin> hiddenId ` set (hiddenVideos sources)
          \<and> channelId v \<notin> blockedId ` set (mixNgChannels sources)))
   \<and> (getXraiShorts U A r sources = Inr feed2 \<longrightarrow>
      (\<forall>v\<in>set feed2. videoId v \<notin> historyIdsOf sources))
   \<and> (getXraiRecommendations U A r rsources = Inr feed3 \<longrightarrow>
      (\<forall>v\<in>set feed3. channelId v \<notin> set (ngChannels rsources)))"
  using getXraiRecommendationsMix_props(3)[of U A r sources feed1]
    getXraiShorts_props(2,4)[of U A r sources feed2]
    getXraiRecommendations_props(3)[of U A r rsources feed3]
  by blast

theorem feed_excludes_hidden_and_blocked_witness:
  "getXraiRecommendationsMix basicLatin
       (onlyTrending [exampleVideo ''a1'' ''Cats'' ''c1'', exampleVideo ''a2'' ''Dogs'' ''c2'',
                      exampleVideo ''a3'' ''Birds'' ''c3''])
       noDraws (mixSourceHiding [''a1''] [''c3'']) = Inr [exampleVideo ''a2'' ''Dogs'' ''c2'']
   \<and> getXraiShorts basicLatin
       (onlyTrending [exampleVideo ''a1'' ''Cats'' ''c1'', exampleVideo ''a2'' ''Dogs'' ''c2'',
                      exampleVideo ''a3'' ''Birds'' ''c3''])
       noDraws (mixSourceHiding [''a1''] [''c3'']) = Inr [exampleVideo ''a2'' ''Dogs'' ''c2'']
   \<and> \<not> takesFallback basicLatin
       (onlyTrending [exampleVideo ''a1'' ''Cats'' ''c1'', exampleVideo ''a2'' ''Dogs'' ''c2'',
                      exampleVideo ''a3'' ''Birds'' ''c3''])
       noDraws (mixSourceHiding [''a1''] [''c3''])
   \<and> getXraiRecommendations basicLatin
       (onlyTrending [exampleVideo ''a1'' ''Cats'' ''c1'', exampleVideo ''a2'' ''Dogs'' ''c2'',
                      exampleVideo ''a3'' ''Birds'' ''c3''])
       noDraws (coldStart [''c3''])
       = Inr [exampleVideo ''a1'' ''Cats'' ''c1'', exampleVideo ''a2'' ''Dogs'' ''c2'']
   \<and> videoId (exampleVideo ''a2'' ''Dogs'' ''c2'') \<notin> hiddenId ` set (hiddenVideos (mixSourceHiding [''a1''] [''c3'']))
   \<and> channelId (exampleVideo ''a2'' ''Dogs'' ''c2'') \<notin> blockedId ` set (mixNgChannels (mixSourceHiding [''a1''] [''c3'']))
   \<and> channelId (exampleVideo ''a1'' ''Cats'' ''c1'') \<notin> set (ngChannels (coldStart [''c3'']))"
  using feed_excludes_hidden_and_blocked[of basicLatin
      "onlyTrending [exampleVideo ''a1'' ''Cats'' ''c1'', exampleVideo ''a2'' ''Dogs'' ''c2'',
                      exampleVideo ''a3'' ''Birds'' ''c3'']"
      noDraws "mixSourceHiding [''a1''] [''c3'']" "[exampleVideo ''a2'' ''Dogs'' ''c2'']"
      "[exampleVideo ''a2'' ''Dogs'' ''c2'']" "coldStart [''c3'']"
      "[exampleVideo ''a1'' ''Cats'' ''c1'', exampleVideo ''a2'' ''Dogs'' ''c2'']"]
  by (simp add: evMix evShorts evShortsMain evRank)

text \<open>
  The claim as stated fails on the fallback path of the short-form feed: when the only
  popular short is hidden and of an NG channel, the mixed feed is empty and the fallback
  returns that very video.
\<close>

theorem shorts_fallback_returns_hidden:
  "getXraiShorts basicLatin (onlyTrending [exampleVideo ''a1'' ''Cats'' ''c1'']) noDraws
       (mixSourceHiding [''a1''] [''c1''])
     = Inr [exampleVideo ''a1'' ''Cats'' ''c1'']
   \<and> takesFallback basicLatin (onlyTrending [exampleVideo ''a1'' ''Cats'' ''c1'']) noDraws
       (mixSourceHiding [''a1''] [''c1''])
   \<and> videoId (exampleVideo ''a1'' ''Cats'' ''c1'')
       \<in> hiddenId ` set (hiddenVideos (mixSourceHiding [''a1''] [''c1'']))
   \<and> channelId (exampleVideo ''a1'' ''Cats'' ''c1'')
       \<in> blockedId ` set (mixNgChannels (mixSourceHiding [''a1''] [''c1'']))"
  by (simp add: mix_eval promise_eval fixture_eval shuffle_eval numPopular numPersonalizedShorts str_def)

section \<open>The feeds: distinct ids, bounds, diversity, watched videos\<close>

text \<open>
  Claim C2, as amended. The main feed of either engine holds no two videos with the same
  id and at most 50 videos; the short-form feed holds at most 40 videos on every path, and
  no two videos with the same id unless the pass takes the fallback path.
\<close>

theorem feed_distinct_and_bounded:
  "(getXraiRecommendationsMix U A r sources = Inr feed1 \<longrightarrow>
      distinct (map videoId feed1) \<and> length feed1 \<le> 50)
   \<and> (getXraiRecommendations U A r rsources = Inr feed2 \<longrightarrow>
      distinct (map videoId feed2) \<and> length feed2 \<le> 50)
   \<and> (getXraiShorts U A r sources = Inr feed3 \<longrightarrow>
      length feed3 \<le> 40 \<and> (\<not> takesFallback U A r sources \<longrightarrow> distinct (map videoId feed3)))"
  using getXraiRecommendationsMix_props(1,2)[of U A r sources feed1]
    getXraiRecommendations_props(1,2)[of U A r rsources feed2]
    getXraiShorts_props(1,3)[of U A r sources feed3]
  by blast

theorem feed_distinct_and_bounded_witness:
  "getXraiRecommendationsMix basicLatin
       (onlyTrending [exampleVideo ''a1'' ''Cats'' ''c1'', exampleVideo ''a2'' ''Dogs'' ''c2'',
                      exampleVideo ''a3'' ''Birds'' ''c3''])
       noDraws (mixSourceHiding [''a1''] [''c3'']) = Inr [exampleVideo ''a2'' ''Dogs'' ''c2'']
   \<and> getXraiRecommendations basicLatin
       (onlyTrending [exampleVideo ''a1'' ''Cats'' ''c1'', exampleVideo ''a2'' ''Dogs'' ''c2'',
                      exampleVideo ''a3'' ''Birds'' ''c3''])
       noDraws (coldStart [''c3''])
       = Inr [exampleVideo ''a1'' ''Cats'' ''c1'', exampleVideo ''a2'' ''Dogs'' ''c2'']
   \<and> getXraiShorts basicLatin
       (onlyTrending [exampleVideo ''a1'' ''Cats'' ''c1'', exampleVideo ''a2'' ''Dogs'' ''c2'',
                      exampleVideo ''a3'' ''Birds'' ''c3''])
       noDraws (mixSourceHiding [''a1''] [''c3'']) = Inr [exampleVideo ''a2'' ''Dogs'' ''c2'']
   \<and> \<not> takesFallback basicLatin
       (onlyTrending [exampleVideo ''a1'' ''Cats'' ''c1'', exampleVideo ''a2'' ''Dogs'' ''c2'',
                      exampleVideo ''a3'' ''Birds'' ''c3''])
       noDraws (mixSourceHiding [''a1''] [''c3''])
   \<and> distinct (map videoId [exampleVideo ''a1'' ''Cats'' ''c1'', exampleVideo ''a2'' ''Dogs'' ''c2''])
   \<and> length [exampleVideo ''a1'' ''Cats'' ''c1'', exampleVideo ''a2'' ''Dogs'' ''c2''] \<le> 50
   \<and> distinct (map videoId [exampleVideo ''a2'' ''Dogs'' ''c2''])"
  using feed_distinct_and_bounded[of basicLatin
      "onlyTrending [exampleVideo ''a1'' ''Cats'' ''c1'', exampleVideo ''a2'' ''Dogs'' ''c2'',
                      exampleVideo ''a3'' ''Birds'' ''c3'']"
      noDraws "mixSourceHiding [''a1''] [''c3'']" "[exampleVideo ''a2'' ''Dogs'' ''c2'']"
      "coldStart [''c3'']"
      "[exampleVideo ''a1'' ''Cats'' ''c1'', exampleVideo ''a2'' ''Dogs'' ''c2'']"
      "[exampleVideo ''a2'' ''Dogs'' ''c2'']"]
  by (simp add: evMix evShorts evShortsMain evRank)

text \<open>
  The claim as stated fails on the fallback path of the short-form feed: when the popular
  pool lists a hidden short twice, the mixed feed is empty and the fallback returns both
  entries, which share their id.
\<close>

theorem shorts_fallback_returns_duplicates:
  "getXraiShorts basicLatin
       (onlyTrending [exampleVideo ''a1'' ''Cats'' ''c1'', exampleVideo ''a1'' ''Cats'' ''c1''])
       noDraws (mixSourceHiding [''a1''] [])
     = Inr [exampleVideo ''a1'' ''Cats'' ''c1'', exampleVideo ''a1'' ''Cats'' ''c1'']
   \<and> \<not> distinct (map videoId [exampleVideo ''a1'' ''Cats'' ''c1'', exampleVideo ''a1'' ''Cats'' ''c1''])"
  by (simp add: mix_eval promise_eval fixture_eval shuffle_eval numPopular numPersonalizedShorts str_def)

lemma sorted_sortByScore: "sorted_wrt (\<lambda>a b. snd b \<le> snd a) (sortByScore scoredVideos)"
proof -
  have "sorted (map (\<lambda>sv. - snd sv) (sortByScore scoredVideos))"
    unfolding sortByScore_def by (rule sorted_sort_key)
  then show ?thesis by (simp add: sorted_map)
qed

lemma diversify_Nil: "diversify [] = []"
  by (simp add: diversify_def)

text \<open>
  Claim C3, as amended. In the feed of the profile-ranked engine, every channel id occurs
  at most 3 times. The diversifier walks the list sorted by descending score once, from
  the front: a candidate is admitted exactly when its channel occurs fewer than 3 times
  among the candidates admitted before it, and a rejected candidate is dropped (the result
  is a subsequence of the sorted list). The ratio-mix feeds have no diversifier.
\<close>

theorem diversity_cap_of_ranked_feed:
  "(getXraiRecommendations U A r sources = Inr feed \<longrightarrow> channelOccurrences c feed \<le> 3)
   \<and> channelOccurrences c (rankVideos U candidates userProfile ctx) \<le> 3
   \<and> rankVideos U candidates userProfile ctx
       = diversify (map fst (sortByScore (scoreVideos U candidates userProfile ctx)))
   \<and> sorted_wrt (\<lambda>a b. snd b \<le> snd a) (sortByScore (scoreVideos U candidates userProfile ctx))
   \<and> diversify [] = []
   \<and> diversify (vs @ [v])
       = diversify vs @ (if channelOccurrences (channelId v) (diversify vs) < 3 then [v] else [])
   \<and> subseq (diversify vs) vs"
  using getXraiRecommendations_props(4)[of U A r sources feed c]
  by (simp add: rankVideos_props(3) diversify_cap sorted_sortByScore diversify_Nil diversify_snoc
      diversify_subseq rankVideos_def)

theorem diversity_cap_of_ranked_feed_witness:
  "getXraiRecommendations basicLatin
       (onlyTrending [exampleVideo ''a1'' ''Cats'' ''c1'', exampleVideo ''a2'' ''Dogs'' ''c1'',
                      exampleVideo ''a3'' ''Birds'' ''c1'', exampleVideo ''a4'' ''Fish'' ''c1''])
       noDraws (coldStart [])
     = Inr [exampleVideo ''a1'' ''Cats'' ''c1'', exampleVideo ''a2'' ''Dogs'' ''c1'',
            exampleVideo ''a3'' ''Birds'' ''c1'']
   \<and> channelOccurrences (str ''c1'')
        [exampleVideo ''a1'' ''Cats'' ''c1'', exampleVideo ''a2'' ''Dogs'' ''c1'',
         exampleVideo ''a3'' ''Birds'' ''c1''] \<le> 3"
  using diversity_cap_of_ranked_feed[of basicLatin
      "onlyTrending [exampleVideo ''a1'' ''Cats'' ''c1'', exampleVideo ''a2'' ''Dogs'' ''c1'',
                      exampleVideo ''a3'' ''Birds'' ''c1'', exampleVideo ''a4'' ''Fish'' ''c1'']"
      noDraws "coldStart []"
      "[exampleVideo ''a1'' ''Cats'' ''c1'', exampleVideo ''a2'' ''Dogs'' ''c1'',
            exampleVideo ''a3'' ''Birds'' ''c1'']" "str ''c1''"]
  by (simp add: evRank4)

text \<open>
  The claim as stated fails on the ratio-mix feeds, which have no diversity pass: four
  trending videos of one channel are all returned.
\<close>

theorem mix_feed_exceeds_diversity_cap:
  "getXraiRecommendationsMix basicLatin
       (onlyTrending [exampleVideo ''a1'' ''Cats'' ''c1'', exampleVideo ''a2'' ''Dogs'' ''c1'',
                      exampleVideo ''a3'' ''Birds'' ''c1'', exampleVideo ''a4'' ''Fish'' ''c1''])
       noDraws (mixSourceHiding [] [])
     = Inr [exampleVideo ''a3'' ''Birds'' ''c1'', exampleVideo ''a4'' ''Fish'' ''c1'',
            exampleVideo ''a1'' ''Cats'' ''c1'', exampleVideo ''a2'' ''Dogs'' ''c1'']
   \<and> channelOccurrences (str ''c1'')
        [exampleVideo ''a3'' ''Birds'' ''c1'', exampleVideo ''a4'' ''Fish'' ''c1'',
         exampleVideo ''a1'' ''Cats'' ''c1'', exampleVideo ''a2'' ''Dogs'' ''c1''] = 4"
  by (simp add: mix_eval promise_eval fixture_eval shuffle_eval numTrending numPersonalized
      extract_eval channelOccurrences_def)

lemma evRankWatched:
  "rankVideos basicLatin [exampleVideo ''a1'' ''Cats'' ''c1'', exampleVideo ''a2'' ''Dogs'' ''c2'']
       \<lparr> keywordWeights = [] \<rparr>
       \<lparr> ctx_ngKeywords = [], ctx_ngChannels = [],
         ctx_watchHistory = [exampleVideo ''a1'' ''Cats'' ''c1''] \<rparr>
     = [exampleVideo ''a2'' ''Dogs'' ''c2'']"
  by (simp add: rank_eval finalScore_exampleVideo)

text \<open>
  Claim C10. The feed that \<open>rankVideos\<close> produces holds no video whose id is the id of a
  video of the watch history it is given; so does the feed of the profile-ranked engine.
\<close>

theorem ranked_feed_excludes_watched:
  "(\<forall>v\<in>set (rankVideos U candidates userProfile ctx).
       videoId v \<notin> videoId ` set (ctx_watchHistory ctx))
   \<and> (getXraiRecommendations U A r sources = Inr feed \<longrightarrow>
       (\<forall>v\<in>set feed. videoId v \<notin> videoId ` set (watchHistory sources)))"
  using rankVideos_props(2)[of U candidates userProfile ctx]
    getXraiRecommendations_props(3)[of U A r sources feed]
  by blast

theorem ranked_feed_excludes_watched_witness:
  "rankVideos basicLatin [exampleVideo ''a1'' ''Cats'' ''c1'', exampleVideo ''a2'' ''Dogs'' ''c2'']
       \<lparr> keywordWeights = [] \<rparr>
       \<lparr> ctx_ngKeywords = [], ctx_ngChannels = [],
         ctx_watchHistory = [exampleVideo ''a1'' ''Cats'' ''c1''] \<rparr>
     = [exampleVideo ''a2'' ''Dogs'' ''c2'']
   \<and> getXraiRecommendations basicLatin
       (onlyTrending [exampleVideo ''a1'' ''Cats'' ''c1'', exampleVideo ''a2'' ''Dogs'' ''c2'',
                      exampleVideo ''a3'' ''Birds'' ''c3''])
       noDraws (coldStart [''c3''])
       = Inr [exampleVideo ''a1'' ''Cats'' ''c1'', exampleVideo ''a2'' ''Dogs'' ''c2'']
   \<and> videoId (exampleVideo ''a2'' ''Dogs'' ''c2'') \<notin> videoId ` set [exampleVideo ''a1'' ''Cats'' ''c1'']"
  using ranked_feed_excludes_watched[of basicLatin
      "[exampleVideo ''a1'' ''Cats'' ''c1'', exampleVideo ''a2'' ''Dogs'' ''c2'']"
      "\<lparr> keywordWeights = [] \<rparr>"
      "\<lparr> ctx_ngKeywords = [], ctx_ngChannels = [],
         ctx_watchHistory = [exampleVideo ''a1'' ''Cats'' ''c1''] \<rparr>"
      "onlyTrending [exampleVideo ''a1'' ''Cats'' ''c1'', exampleVideo ''a2'' ''Dogs'' ''c2'',
                      exampleVideo ''a3'' ''Birds'' ''c3'']"
      noDraws "coldStart [''c3'']"
      "[exampleVideo ''a1'' ''Cats'' ''c1'', exampleVideo ''a2'' ''Dogs'' ''c2'']"]
  by (simp add: evRankWatched evRank)

section \<open>Recency parsing: lemmas\<close>

lemmas marker_defs =
  minutesAgo_def hoursAgo_def daysAgoMark_def weeksAgo_def monthsAgo_def yearsAgo_def

lemma decimal_digits: "decimal n \<noteq> [] \<and> list_all isDigit (decimal n)"
proof (induction n rule: decimal.induct)
  case (1 n)
  show ?case
  proof (cases "n < 10")
    case True
    then show ?thesis by (simp add: decimal.simps[of n] isDigit_def)
  next
    case False
    have d: "isDigit (48 + n mod 10)" by (simp add: isDigit_def)
    have "decimal n = decimal (n div 10) @ [48 + n mod 10]"
      using False by (simp add: decimal.simps[of n])
    then show ?thesis using 1 False d by simp
  qed
qed

lemma parseIntDigits_snoc: "parseIntDigits (ds @ [c]) = 10 * parseIntDigits ds + (c - 48)"
  by (simp add: parseIntDigits_def)

lemma parseIntDigits_decimal: "parseIntDigits (decimal n) = n"
proof (induction n rule: decimal.induct)
  case (1 n)
  show ?case
  proof (cases "n < 10")
    case True
    then show ?thesis by (simp add: decimal.simps[of n] parseIntDigits_def)
  next
    case False
    then have "parseIntDigits (decimal n) = 10 * parseIntDigits (decimal (n div 10)) + n mod 10"
      by (simp add: decimal.simps[of n] parseIntDigits_snoc)
    with 1 False show ?thesis by simp
  qed
qed

lemma js_includes_digits_prefix:
  assumes "list_all isDigit ds" and "\<not> isDigit c"
  shows "js_includes (ds @ m) (c # t) = js_includes m (c # t)"
  using assms by (induction ds) auto

lemma matchDigits_prefix:
  assumes "ds \<noteq> []" and "list_all isDigit ds" and "\<not> isDigit c"
  shows "matchDigits (ds @ c # m) = Some ds"
proof -
  from assms obtain d ds' where ds: "ds = d # ds'" and d: "isDigit d" by (cases ds) auto
  have tw: "takeWhile isDigit (ds @ c # m) = ds"
    using assms by (simp add: takeWhile_append2 list_all_iff)
  show ?thesis using d tw by (simp add: matchDigits_def ds)
qed

lemma parseUploadedAt_units:
  assumes U: "caselessRecency U" and ne: "ds \<noteq> []" and dig: "list_all isDigit ds"
  shows "parseUploadedAt U (ds @ minutesAgo) = 0"
    and "parseUploadedAt U (ds @ hoursAgo) = 0"
    and "parseUploadedAt U (ds @ daysAgoMark) = parseIntDigits ds"
    and "parseUploadedAt U (ds @ weeksAgo) = parseIntDigits ds * 7"
    and "parseUploadedAt U (ds @ monthsAgo) = parseIntDigits ds * 30"
    and "parseUploadedAt U (ds @ yearsAgo) = parseIntDigits ds * 365"
proof -
  have low: "toLowerCase U (ds @ m) = ds @ m" if "set m \<subseteq> set recencyChars" for m
    using U[unfolded caselessRecency_def, rule_format, of "ds @ m"] dig that
    by (auto simp: list_all_iff)
  have inc: "js_includes (ds @ m) (c # t) = js_includes m (c # t)" if "\<not> isDigit c" for m c t
    using dig that by (rule js_includes_digits_prefix)
  have md: "matchDigits (ds @ c # m) = Some ds" if "\<not> isDigit c" for c m
    using ne dig that by (rule matchDigits_prefix)
  show "parseUploadedAt U (ds @ minutesAgo) = 0"
    using ne by (simp add: parseUploadedAt_def low marker_defs recencyChars_def inc isDigit_def Let_def)
  show "parseUploadedAt U (ds @ hoursAgo) = 0"
    using ne by (simp add: parseUploadedAt_def low marker_defs recencyChars_def inc isDigit_def Let_def)
  show "parseUploadedAt U (ds @ daysAgoMark) = parseIntDigits ds"
    using ne by (simp add: parseUploadedAt_def low marker_defs recencyChars_def inc md isDigit_def Let_def)
  show "parseUploadedAt U (ds @ weeksAgo) = parseIntDigits ds * 7"
    using ne by (simp add: parseUploadedAt_def low marker_defs recencyChars_def inc md isDigit_def Let_def)
  show "parseUploadedAt U (ds @ monthsAgo) = parseIntDigits ds * 30"
    using ne by (simp add: parseUploadedAt_def low marker_defs recencyChars_def inc md isDigit_def Let_def)
  show "parseUploadedAt U (ds @ yearsAgo) = parseIntDigits ds * 365"
    using ne by (simp add: parseUploadedAt_def low marker_defs recencyChars_def inc md isDigit_def Let_def)
qed

text \<open>A text that includes a unit marker but no digit counts as 0 units: the parser
  takes the missing number as 0.\<close>

lemma matchDigits_no_digit: "\<not> list_ex isDigit t \<Longrightarrow> matchDigits t = None"
  by (simp add: matchDigits_def list_ex_iff dropWhile_eq_Nil_conv)

lemma parseUploadedAt_marker_without_number:
  assumes "s \<noteq> []" and "hasUnitMarker U s" and "\<not> list_ex isDigit (toLowerCase U s)"
  shows "parseUploadedAt U s = 0"
  using assms by (auto simp: parseUploadedAt_def hasUnitMarker_def matchDigits_no_digit Let_def)

lemma parseUploadedAt_unparseable: "\<not> hasUnitMarker U s \<Longrightarrow> parseUploadedAt U s = 999"
  by (simp add: parseUploadedAt_def hasUnitMarker_def Let_def)

lemma caselessRecency_basicLatin: "caselessRecency basicLatin"
  unfolding caselessRecency_def
proof (intro allI impI)
  fix s :: jsstring
  assume a: "\<forall>c\<in>set s. isDigit c \<or> c \<in> set recencyChars"
  have "map (\<lambda>c. if 65 \<le> c \<and> c \<le> 90 then c + 32 else c) s = s"
  proof (rule map_idI)
    fix c assume "c \<in> set s"
    with a have "isDigit c \<or> c \<in> set recencyChars" by blast
    then show "(if 65 \<le> c \<and> c \<le> 90 then c + 32 else c) = c"
      by (auto simp: isDigit_def recencyChars_def)
  qed
  then show "toLowerCase basicLatin s = s" by (simp add: basicLatin_def)
qed

lemma decimal_3: "decimal 3 = [51]" and decimal_40: "decimal 40 = [52, 48]"
  by (simp_all add: decimal.simps[of 3] decimal.simps[of 40] decimal.simps[of 4])

lemma freshnessScore_days:
  "caselessRecency U \<Longrightarrow>
     freshnessScore U (v\<lparr>uploadedAt := decimal n @ daysAgoMark\<rparr>) = max 0 (1 - real n / 60) * 5"
  using parseUploadedAt_units(3)[of U "decimal n"] decimal_digits[of n]
  by (simp add: freshnessScore_def parseIntDigits_decimal)

lemma finalScore_uploadedAt:
  "finalScore U p (v\<lparr>uploadedAt := t\<rparr>)
     = relevanceScore U p (fullTextOf U v) * 1.5 + popularityScore v * 0.3
       + freshnessScore U (v\<lparr>uploadedAt := t\<rparr>) * 1.0"
  by (simp add: finalScore_def fullTextOf_def popularityScore_def)

text \<open>
  Claim C5, as amended. The recency parser maps a text that includes the minutes-ago or
  the hours-ago marker to 0 days, the decimal numeral of \<open>n\<close> followed by the days-ago
  marker to \<open>n\<close>, by the weeks-ago marker to \<open>7n\<close>, by the months-ago marker to \<open>30n\<close>, by
  the years-ago marker to \<open>365n\<close>, and the empty text and every text that includes no
  unit marker to 999; a text that includes a unit marker but no digit is not mapped to
  999: its number is taken as 0, so it is mapped to 0 days. So a video tagged 3 days ago
  has a strictly higher freshness (and, the profile, the views and the texts being the
  same, a strictly higher final score) than one tagged 40 days ago, and a parsed age above
  60 days gives a freshness that is not positive.
  The case mapping of the platform is a parameter: the statement asks that the digits and
  the characters of the markers have no case (\<open>caselessRecency\<close>). The numbers are those
  for which \<open>parseInt\<close> and the product are exact: \<open>365 * n\<close> is at most \<open>2 ^ 53\<close>.
\<close>

theorem recency_parser_and_freshness:
  "caselessRecency U \<Longrightarrow> 365 * n \<le> 2 ^ 53 \<Longrightarrow>
     (s \<noteq> [] \<and> (js_includes (toLowerCase U s) minutesAgo \<or> js_includes (toLowerCase U s) hoursAgo)
        \<longrightarrow> parseUploadedAt U s = 0)
   \<and> parseUploadedAt U (decimal n @ minutesAgo) = 0
   \<and> parseUploadedAt U (decimal n @ hoursAgo) = 0
   \<and> parseUploadedAt U (decimal n @ daysAgoMark) = n
   \<and> parseUploadedAt U (decimal n @ weeksAgo) = 7 * n
   \<and> parseUploadedAt U (decimal n @ monthsAgo) = 30 * n
   \<and> parseUploadedAt U (decimal n @ yearsAgo) = 365 * n
   \<and> parseUploadedAt U [] = 999
   \<and> (\<not> hasUnitMarker U s \<longrightarrow> parseUploadedAt U s = 999)
   \<and> (s \<noteq> [] \<and> hasUnitMarker U s \<and> \<not> list_ex isDigit (toLowerCase U s)
        \<longrightarrow> parseUploadedAt U s = 0)
   \<and> freshnessScore U (v\<lparr>uploadedAt := decimal 40 @ daysAgoMark\<rparr>)
       < freshnessScore U (w\<lparr>uploadedAt := decimal 3 @ daysAgoMark\<rparr>)
   \<and> finalScore U userProfile (v\<lparr>uploadedAt := decimal 40 @ daysAgoMark\<rparr>)
       < finalScore U userProfile (v\<lparr>uploadedAt := decimal 3 @ daysAgoMark\<rparr>)
   \<and> (60 < parseUploadedAt U (uploadedAt v) \<longrightarrow> freshnessScore U v \<le> 0)"
proof -
  assume U: "caselessRecency U"
  note units = parseUploadedAt_units[OF U conjunct1[OF decimal_digits] conjunct2[OF decimal_digits], of n]
  have zero: "s \<noteq> [] \<and> (js_includes (toLowerCase U s) minutesAgo \<or> js_includes (toLowerCase U s) hoursAgo)
        \<longrightarrow> parseUploadedAt U s = 0"
    by (auto simp: parseUploadedAt_def Let_def)
  have empty: "parseUploadedAt U [] = 999" by (simp add: parseUploadedAt_def)
  have unp: "\<not> hasUnitMarker U s \<longrightarrow> parseUploadedAt U s = 999"
    by (simp add: parseUploadedAt_unparseable)
  have nonum: "s \<noteq> [] \<and> hasUnitMarker U s \<and> \<not> list_ex isDigit (toLowerCase U s)
        \<longrightarrow> parseUploadedAt U s = 0"
    by (simp add: parseUploadedAt_marker_without_number)
  have fr: "freshnessScore U (v\<lparr>uploadedAt := decimal 40 @ daysAgoMark\<rparr>)
       < freshnessScore U (w\<lparr>uploadedAt := decimal 3 @ daysAgoMark\<rparr>)"
    by (simp add: freshnessScore_days[OF U])
  have fr': "freshnessScore U (v\<lparr>uploadedAt := decimal 40 @ daysAgoMark\<rparr>)
       < freshnessScore U (v\<lparr>uploadedAt := decimal 3 @ daysAgoMark\<rparr>)"
    by (simp add: freshnessScore_days[OF U])
  have fin: "finalScore U userProfile (v\<lparr>uploadedAt := decimal 40 @ daysAgoMark\<rparr>)
       < finalScore U userProfile (v\<lparr>uploadedAt := decimal 3 @ daysAgoMark\<rparr>)"
    using fr' by (simp add: finalScore_uploadedAt)
  have old: "60 < parseUploadedAt U (uploadedAt v) \<longrightarrow> freshnessScore U v \<le> 0"
    by (simp add: freshnessScore_def max_def Let_def)
  show ?thesis
    using zero units empty unp nonum fr fin old by (simp add: parseIntDigits_decimal mult.commute)
qed

theorem recency_parser_and_freshness_witness:
  "caselessRecency basicLatin
   \<and> 365 * (3::nat) \<le> 2 ^ 53
   \<and> parseUploadedAt basicLatin [53, 0x6642, 0x9593, 0x524D] = 0
   \<and> parseUploadedAt basicLatin [53, 0x5206, 0x524D] = 0
   \<and> parseUploadedAt basicLatin [51, 0x65E5, 0x524D] = 3
   \<and> parseUploadedAt basicLatin [51, 0x9031, 0x9593, 0x524D] = 21
   \<and> parseUploadedAt basicLatin [51, 0x304B, 0x6708, 0x524D] = 90
   \<and> parseUploadedAt basicLatin [51, 0x5E74, 0x524D] = 1095
   \<and> \<not> hasUnitMarker basicLatin (str ''3 days ago'')
   \<and> parseUploadedAt basicLatin (str ''3 days ago'') = 999
   \<and> hasUnitMarker basicLatin [0x9031, 0x9593, 0x524D]
   \<and> \<not> list_ex isDigit (toLowerCase basicLatin [0x9031, 0x9593, 0x524D])
   \<and> parseUploadedAt basicLatin [0x9031, 0x9593, 0x524D] = 0
   \<and> 60 < parseUploadedAt basicLatin (uploadedAt (exampleVideo ''a1'' ''Cats'' ''c1''))
   \<and> freshnessScore basicLatin (exampleVideo ''a1'' ''Cats'' ''c1'') \<le> 0"
proof -
  have h: "\<not> hasUnitMarker basicLatin (str ''3 days ago'')"
    by (simp add: hasUnitMarker_def marker_defs basicLatin_def str_def)
  have m: "hasUnitMarker basicLatin [0x9031, 0x9593, 0x524D]"
    "\<not> list_ex isDigit (toLowerCase basicLatin [0x9031, 0x9593, 0x524D])"
    by (simp_all add: hasUnitMarker_def marker_defs basicLatin_def isDigit_def)
  have u: "uploadedAt (exampleVideo ''a1'' ''Cats'' ''c1'') = str ''3 days ago''"
    by (simp add: exampleVideo_def)
  have d5: "decimal 5 = [53]" by (simp add: decimal.simps[of 5])
  have b: "365 * (3::nat) \<le> 2 ^ 53" "365 * (5::nat) \<le> 2 ^ 53" by simp_all
  from recency_parser_and_freshness[OF caselessRecency_basicLatin b(1), of "str ''3 days ago''"
      "exampleVideo ''a1'' ''Cats'' ''c1''" "exampleVideo ''a1'' ''Cats'' ''c1''"]
    recency_parser_and_freshness[OF caselessRecency_basicLatin b(2), of "str ''3 days ago''"
      "exampleVideo ''a1'' ''Cats'' ''c1''" "exampleVideo ''a1'' ''Cats'' ''c1''"]
    recency_parser_and_freshness[OF caselessRecency_basicLatin b(1), of "[0x9031, 0x9593, 0x524D]"
      "exampleVideo ''a1'' ''Cats'' ''c1''" "exampleVideo ''a1'' ''Cats'' ''c1''"]
  show ?thesis
    using h m by (simp add: caselessRecency_basicLatin decimal_3 d5 u marker_defs)
qed

text \<open>
  The claim as stated fails on a text that has a unit marker and no number, which does not
  parse as an age: the days-ago marker alone (U+65E5 U+524D) has no digit, and it is
  mapped to 0 days, not to the sentinel, so that the video gets the highest freshness, 5,
  where the sentinel would give 0.
\<close>

theorem marker_without_number_is_fresh:
  "\<not> list_ex isDigit (toLowerCase basicLatin [0x65E5, 0x524D])
   \<and> matchDigits (toLowerCase basicLatin [0x65E5, 0x524D]) = None
   \<and> parseUploadedAt basicLatin [0x65E5, 0x524D] = 0
   \<and> freshnessScore basicLatin (exampleVideo ''a1'' ''Cats'' ''c1''\<lparr>uploadedAt := [0x65E5, 0x524D]\<rparr>) = 5
   \<and> freshnessScore basicLatin (exampleVideo ''a1'' ''Cats'' ''c1''\<lparr>uploadedAt := str ''yesterday''\<rparr>) = 0"
proof -
  have n: "\<not> list_ex isDigit (toLowerCase basicLatin [0x65E5, 0x524D])"
    by (simp add: basicLatin_def isDigit_def)
  have p: "parseUploadedAt basicLatin [0x65E5, 0x524D] = 0"
    by (rule parseUploadedAt_marker_without_number)
      (simp_all add: hasUnitMarker_def marker_defs basicLatin_def isDigit_def)
  have y: "parseUploadedAt basicLatin (str ''yesterday'') = 999"
    by (rule parseUploadedAt_unparseable)
      (simp add: hasUnitMarker_def marker_defs basicLatin_def str_def)
  show ?thesis
    using n p y by (simp add: matchDigits_no_digit freshnessScore_def)
qed

section \<open>Scoring: lemmas\<close>

lemma relevance_fold:
  "fold (\<lambda>kw relevance. if map_of m kw \<noteq> None then relevance + get_or_0 m kw else relevance) ks a
     = a + (\<Sum>kw\<leftarrow>ks. case map_of m kw of None \<Rightarrow> 0 | Some w \<Rightarrow> w)"
  by (induction ks arbitrary: a) (auto simp: get_or_0_def)

lemma relevanceScore_spec:
  "relevanceScore U userProfile (fullTextOf U video) = spec_relevance U userProfile video"
proof -
  let ?ks = "extractKeywords U (fullTextOf U video)"
  let ?w = "\<lambda>kw. case map_of (keywordWeights userProfile) kw of None \<Rightarrow> 0 | Some w \<Rightarrow> w"
  have d: "dedupe ?ks = ?ks" by (simp add: dedupe_distinct distinct_extractKeywords)
  have t: "fullTextOf U video
      = toLowerCase U (title video @ str '' '' @ channelName video @ str '' ''
          @ (case descriptionSnippet video of None \<Rightarrow> [] | Some d \<Rightarrow> d))"
    by (simp add: fullTextOf_def str_def)
  have "relevanceScore U userProfile (fullTextOf U video) = (\<Sum>kw\<leftarrow>?ks. ?w kw)"
    unfolding relevanceScore_def d by (simp only: relevance_fold)
  also have "\<dots> = (\<Sum>kw\<in>set ?ks. ?w kw)"
    by (rule sum_list_distinct_conv_sum_set) (rule distinct_extractKeywords)
  finally show ?thesis by (simp only: spec_relevance_def t)
qed

lemma digitsValue_snoc: "digitsValue (ds @ [c]) = 10 * digitsValue ds + (c - 48)"
proof -
  have "digitsValue (ds @ [c])
      = (\<Sum>i<length ds. (ds ! i - 48) * 10 ^ (length ds - i)) + (c - 48)"
    by (simp add: digitsValue_def nth_append)
  also have "(\<Sum>i<length ds. (ds ! i - 48) * 10 ^ (length ds - i))
      = (\<Sum>i<length ds. 10 * ((ds ! i - 48) * 10 ^ (length ds - Suc i)))"
  proof (rule sum.cong)
    fix i assume "i \<in> {..<length ds}"
    then have "length ds - i = Suc (length ds - Suc i)" by auto
    then show "(ds ! i - 48) * 10 ^ (length ds - i) = 10 * ((ds ! i - 48) * 10 ^ (length ds - Suc i))"
      by simp
  qed simp
  also have "\<dots> = 10 * digitsValue ds" by (simp add: digitsValue_def sum_distrib_left)
  finally show ?thesis .
qed

lemma parseIntDigits_value: "parseIntDigits ds = digitsValue ds"
proof (induction ds rule: rev_induct)
  case Nil
  show ?case by (simp add: parseIntDigits_def digitsValue_def)
next
  case (snoc c ds)
  then show ?case by (simp add: parseIntDigits_snoc digitsValue_snoc)
qed

lemma popularityScore_spec: "popularityScore video = spec_popularity video"
  by (simp add: popularityScore_def parseViews_def spec_popularity_def parseIntDigits_value Let_def)

lemma popularityScore_parse_failure:
  "filter isDigit (views video) = [] \<Longrightarrow> popularityScore video = 0"
  by (simp add: popularityScore_def parseViews_def)

lemma finalScore_spec: "finalScore U userProfile video = spec_finalScore U userProfile video"
  by (simp add: finalScore_def spec_finalScore_def relevanceScore_spec popularityScore_spec
      freshnessScore_def spec_freshness_def Let_def)

lemma scoreVideos_spec:
  "\<forall>sv\<in>set (scoreVideos U candidates userProfile ctx). snd sv = spec_finalScore U userProfile (fst sv)"
  using scoreVideos_props(2)[of U candidates userProfile ctx] by (simp add: finalScore_spec)

lemma log10_million_one: "6 < log 10 1000001" "log 10 1000001 < 6 + 1 / 1000000"
proof -
  have six: "log 10 (1000000::real) = 6" using log_pow_cancel[of "10::real" 6] by simp
  have "log 10 (1000000::real) < log 10 1000001" by (subst log_less_cancel_iff) simp_all
  then show "6 < log 10 1000001" by (simp add: six)
  define x where "x = ln (1000001 / 1000000 :: real)"
  define L where "L = ln (10::real)"
  have "exp 1 < (10::real)" using exp_le by linarith
  then have "ln (exp 1) < ln (10::real)" by (subst ln_less_cancel_iff) simp_all
  then have L: "1 < L" by (simp add: L_def)
  have "ln (1000001 / 1000000 :: real) \<le> 1000001 / 1000000 - 1"
    by (rule ln_le_minus_one) simp
  then have small: "x \<le> 1 / 1000000" by (simp add: x_def)
  have pos: "0 < x" unfolding x_def by (rule ln_gt_zero) simp
  have "log 10 (1000001::real) = log 10 (1000000 * (1000001 / 1000000))" by simp
  also have "\<dots> = log 10 (1000000::real) + log 10 (1000001 / 1000000)"
    by (subst log_mult) simp_all
  also have "\<dots> = 6 + x / L"
    by (simp only: six) (simp add: log_def x_def L_def)
  finally have eq: "log 10 1000001 = 6 + x / L" .
  have "x < x * L" using pos L by simp
  then have "x / L < x" using L by (simp add: field_simps)
  with small have "x / L < 1 / 1000000" by linarith
  then show "log 10 1000001 < 6 + 1 / 1000000" unfolding eq by linarith
qed

lemma musicVideo_parts:
  "spec_relevance basicLatin musicProfile musicVideo = 5"
  "spec_popularity musicVideo = log 10 1000001"
  "spec_freshness basicLatin musicVideo = (1 - 2 / 60) * 5"
  "viewsInRange musicVideo"
proof -
  have kw: "extractKeywords basicLatin (fullTextOf basicLatin musicVideo)
      = [str ''music'', str ''video'', str ''studio'']"
    by (simp add: fullTextOf_def musicVideo_def extract_eval)
  have "relevanceScore basicLatin musicProfile (fullTextOf basicLatin musicVideo) = 5"
    by (simp add: relevanceScore_def kw musicProfile_def dedupe_def get_or_0_def str_def)
  then show "spec_relevance basicLatin musicProfile musicVideo = 5"
    by (simp only: relevanceScore_spec)
  have d: "filter isDigit (views musicVideo) = str ''1000000''"
    by (simp add: musicVideo_def isDigit_def str_def)
  have v: "digitsValue (str ''1000000'') = 1000000"
    by (simp add: parseIntDigits_value[symmetric] parseIntDigits_def str_def)
  show "spec_popularity musicVideo = log 10 1000001"
    by (simp add: spec_popularity_def d v)
  show "viewsInRange musicVideo" by (simp add: viewsInRange_def d v)
  have "parseUploadedAt basicLatin [50, 0x65E5, 0x524D] = 2"
    using parseUploadedAt_units(3)[OF caselessRecency_basicLatin, of "[50]"]
    by (simp add: daysAgoMark_def isDigit_def parseIntDigits_def)
  then show "spec_freshness basicLatin musicVideo = (1 - 2 / 60) * 5"
    by (simp add: spec_freshness_def musicVideo_def)
qed

lemma liveVideo_parts:
  "spec_relevance basicLatin liveProfile liveVideo = 8"
  "spec_popularity liveVideo = log 10 251"
  "spec_freshness basicLatin liveVideo = 5 / 2"
  "viewsInRange liveVideo"
proof -
  have kw: "extractKeywords basicLatin
        (toLowerCase basicLatin (str ''Music music video'' @ str '' '' @ str ''Music Studio'' @ str '' ''
           @ str ''live music''))
      = [str ''music'', str ''video'', str ''studio'', str ''live'']"
    by (simp add: extract_eval)
  show "spec_relevance basicLatin liveProfile liveVideo = 8"
    by (simp add: spec_relevance_def liveVideo_def kw) (simp add: liveProfile_def str_def)
  have d: "filter isDigit (views liveVideo) = str ''250''"
    by (simp add: liveVideo_def isDigit_def str_def)
  have v: "digitsValue (str ''250'') = 250"
    by (simp add: parseIntDigits_value[symmetric] parseIntDigits_def str_def)
  show "spec_popularity liveVideo = log 10 251"
    by (simp add: spec_popularity_def d v)
  show "viewsInRange liveVideo" by (simp add: viewsInRange_def d v)
  have "parseUploadedAt basicLatin [51, 48, 0x65E5, 0x524D] = 30"
    using parseUploadedAt_units(3)[OF caselessRecency_basicLatin, of "[51, 48]"]
    by (simp add: daysAgoMark_def isDigit_def parseIntDigits_def)
  then show "spec_freshness basicLatin liveVideo = 5 / 2"
    by (simp add: spec_freshness_def liveVideo_def)
qed

lemma scoreVideos_single:
  "videoId video \<noteq> [] \<Longrightarrow>
   scoreVideos U [video] userProfile \<lparr> ctx_ngKeywords = [], ctx_ngChannels = [], ctx_watchHistory = [] \<rparr>
     = [(video, finalScore U userProfile video)]"
  by (simp add: scoreVideos_def scoreStep_def)

lemma scoreVideos_examples:
  "scoreVideos basicLatin [musicVideo] musicProfile
       \<lparr> ctx_ngKeywords = [], ctx_ngChannels = [], ctx_watchHistory = [] \<rparr>
     = [(musicVideo, finalScore basicLatin musicProfile musicVideo)]"
  "scoreVideos basicLatin [liveVideo] liveProfile
       \<lparr> ctx_ngKeywords = [], ctx_ngChannels = [], ctx_watchHistory = [] \<rparr>
     = [(liveVideo, finalScore basicLatin liveProfile liveVideo)]"
  by (rule scoreVideos_single, simp add: musicVideo_def str_def)
    (rule scoreVideos_single, simp add: liveVideo_def str_def)

text \<open>
  Claim C4. Every candidate that survives the filtering of \<open>rankVideos\<close> is scored
  \<open>1.5 * relevance + 0.3 * popularity + 1.0 * freshness\<close>, where the relevance is the sum,
  over the set of the keywords extracted from the lower-cased text made of title, channel
  name and description, of the weight the profile gives to each; the popularity is
  \<open>log10 (parsedViews + 1)\<close>, with the parsed views the number written by the digits of
  the views text, or 0 when it has no digit; and the freshness is
  \<open>max 0 (1 - daysAgo / 60) * 5\<close>. In the scenario the score is
  \<open>1.5 * 5 + 0.3 * log10 1000001 + (1 - 2 / 60) * 5\<close>, within 0.01 of 14.13.
  Numbers are real numbers here: the rounding of doubles is not modelled, and the
  statement is made for the candidates whose parsed views are at most \<open>2 ^ 53\<close>, the
  range in which \<open>parseInt\<close> is exact.
\<close>

theorem scorer_formula:
  "(\<forall>sv\<in>set (scoreVideos U candidates userProfile ctx). viewsInRange (fst sv) \<longrightarrow>
       snd sv = 1.5 * spec_relevance U userProfile (fst sv) + 0.3 * spec_popularity (fst sv)
                + 1.0 * spec_freshness U (fst sv))
   \<and> (viewsInRange video \<longrightarrow>
        finalScore U userProfile video
          = 1.5 * spec_relevance U userProfile video + 0.3 * spec_popularity video
            + 1.0 * spec_freshness U video)
   \<and> (filter isDigit (views video) = [] \<longrightarrow> popularityScore video = 0)
   \<and> scoreVideos basicLatin [musicVideo] musicProfile
         \<lparr> ctx_ngKeywords = [], ctx_ngChannels = [], ctx_watchHistory = [] \<rparr>
       = [(musicVideo, finalScore basicLatin musicProfile musicVideo)]
   \<and> finalScore basicLatin musicProfile musicVideo
       = 1.5 * 5 + 0.3 * log 10 1000001 + 1.0 * ((1 - 2 / 60) * 5)
   \<and> \<bar>finalScore basicLatin musicProfile musicVideo - 14.13\<bar> < 0.01"
proof -
  have a: "\<forall>sv\<in>set (scoreVideos U candidates userProfile ctx). viewsInRange (fst sv) \<longrightarrow>
       snd sv = 1.5 * spec_relevance U userProfile (fst sv) + 0.3 * spec_popularity (fst sv)
                + 1.0 * spec_freshness U (fst sv)"
    using scoreVideos_spec[of U candidates userProfile ctx] by (simp add: spec_finalScore_def)
  have b: "viewsInRange video \<longrightarrow>
        finalScore U userProfile video
          = 1.5 * spec_relevance U userProfile video + 0.3 * spec_popularity video
            + 1.0 * spec_freshness U video"
    by (simp add: finalScore_spec spec_finalScore_def)
  have c: "filter isDigit (views video) = [] \<longrightarrow> popularityScore video = 0"
    by (simp add: popularityScore_parse_failure)
  have e: "finalScore basicLatin musicProfile musicVideo
       = 1.5 * 5 + 0.3 * log 10 1000001 + 1.0 * ((1 - 2 / 60) * 5)"
    by (simp only: finalScore_spec spec_finalScore_def musicVideo_parts)
  have f: "\<bar>finalScore basicLatin musicProfile musicVideo - 14.13\<bar> < 0.01"
    unfolding e using log10_million_one by (simp add: abs_less_iff)
  show ?thesis using a b c scoreVideos_examples(1) e f by blast
qed

theorem scorer_formula_witness:
  "viewsInRange liveVideo
   \<and> scoreVideos basicLatin [liveVideo] liveProfile
         \<lparr> ctx_ngKeywords = [], ctx_ngChannels = [], ctx_watchHistory = [] \<rparr>
       = [(liveVideo, finalScore basicLatin liveProfile liveVideo)]
   \<and> finalScore basicLatin liveProfile liveVideo = 1.5 * 8 + 0.3 * log 10 251 + 1.0 * (5 / 2)
   \<and> spec_relevance basicLatin liveProfile liveVideo = 8
   \<and> spec_popularity liveVideo = log 10 251
   \<and> spec_freshness basicLatin liveVideo = 5 / 2
   \<and> viewsInRange musicVideo
   \<and> finalScore basicLatin musicProfile musicVideo
       = 1.5 * 5 + 0.3 * log 10 1000001 + 1.0 * ((1 - 2 / 60) * 5)
   \<and> 14.12 < finalScore basicLatin musicProfile musicVideo
   \<and> finalScore basicLatin musicProfile musicVideo < 14.14
   \<and> filter isDigit (views (musicVideo\<lparr>views := str ''no views''\<rparr>)) = []
   \<and> popularityScore (musicVideo\<lparr>views := str ''no views''\<rparr>) = 0"
proof -
  let ?ctx = "\<lparr> ctx_ngKeywords = [], ctx_ngChannels = [], ctx_watchHistory = [] \<rparr>"
  have d: "filter isDigit (views (musicVideo\<lparr>views := str ''no views''\<rparr>)) = []"
    by (simp add: isDigit_def str_def)
  from scorer_formula[of basicLatin "[liveVideo]" liveProfile ?ctx "musicVideo\<lparr>views := str ''no views''\<rparr>"]
  have s: "\<forall>sv\<in>set (scoreVideos basicLatin [liveVideo] liveProfile ?ctx). viewsInRange (fst sv) \<longrightarrow>
       snd sv = 1.5 * spec_relevance basicLatin liveProfile (fst sv) + 0.3 * spec_popularity (fst sv)
                + 1.0 * spec_freshness basicLatin (fst sv)"
    and p: "popularityScore (musicVideo\<lparr>views := str ''no views''\<rparr>) = 0"
    and m: "finalScore basicLatin musicProfile musicVideo
       = 1.5 * 5 + 0.3 * log 10 1000001 + 1.0 * ((1 - 2 / 60) * 5)"
    and n: "\<bar>finalScore basicLatin musicProfile musicVideo - 14.13\<bar> < 0.01"
    using d by blast+
  from s have l: "finalScore basicLatin liveProfile liveVideo = 1.5 * 8 + 0.3 * log 10 251 + 1.0 * (5 / 2)"
    by (simp add: scoreVideos_examples liveVideo_parts)
  from n have b: "14.12 < finalScore basicLatin musicProfile musicVideo"
    "finalScore basicLatin musicProfile musicVideo < 14.14" by linarith+
  show ?thesis
    using d p l m b by (simp add: scoreVideos_examples liveVideo_parts musicVideo_parts)
qed

section \<open>Profile builder: lemmas\<close>

lemma map_of_map_set: "map_of (map_set m k v) = (map_of m)(k \<mapsto> v)"
  by (induction m k v rule: map_set.induct) (auto simp: fun_eq_iff)

lemma get_or_0_map_set: "get_or_0 (map_set m k v) k' = (if k' = k then v else get_or_0 m k')"
  by (simp add: get_or_0_def map_of_map_set)

lemma get_or_0_add_fold:
  "distinct ks \<Longrightarrow>
     get_or_0 (fold (\<lambda>kw m. map_set m kw (get_or_0 m kw + w)) ks m) k
       = get_or_0 m k + (if k \<in> set ks then w else 0)"
  by (induction ks arbitrary: m) (auto simp: get_or_0_map_set)

lemma get_or_0_addKeywords:
  "get_or_0 (addKeywords U m text w) k = get_or_0 m k + spec_contribution U k text w"
  by (simp add: addKeywords_def get_or_0_add_fold distinct_extractKeywords spec_contribution_def)

lemma fold_additive:
  assumes "\<And>x m. g (f x m) = g m + c x"
  shows "g (fold f xs m) = g m + sum_list (map c xs)"
  using assms by (induction xs arbitrary: m) (auto simp: algebra_simps)

lemma sum_list_enumerate:
  "sum_list (map (\<lambda>(i, x). c i x) (enumerate n xs)) = (\<Sum>i<length xs. c (n + i) (xs ! i) :: real)"
proof (induction xs arbitrary: n)
  case Nil
  then show ?case by simp
next
  case (Cons x xs)
  have "(\<Sum>i<length (x # xs). c (n + i) ((x # xs) ! i))
      = c n x + (\<Sum>i<length xs. c (n + Suc i) (xs ! i))"
    by (simp add: sum.lessThan_Suc_shift del: sum.lessThan_Suc)
  with Cons[of "Suc n"] show ?case by simp
qed

lemma buildUserProfile_weight:
  "get_or_0 (keywordWeights (buildUserProfile U sources)) kw = spec_profileWeight U sources kw"
proof -
  let ?fs = "\<lambda>(index, term) m. let weight = 3.0 * exp (- real index / 5) in addKeywords U m term weight"
  let ?cs = "\<lambda>(index, term). spec_contribution U kw term (3.0 * exp (- real index / 5))"
  let ?fw = "\<lambda>(index, video) m.
                  let weight = 2.0 * exp (- real index / 10);
                      m1 = addKeywords U m (title video) weight;
                      m2 = addKeywords U m1 (channelName video) (weight * 0.8)
                  in addKeywords U m2 (case descriptionSnippet video of None \<Rightarrow> [] | Some d \<Rightarrow> d) (weight * 0.5)"
  let ?cw = "\<lambda>(index, video). spec_contribution U kw (title video) (2.0 * exp (- real index / 10))
         + spec_contribution U kw (channelName video) (0.8 * (2.0 * exp (- real index / 10)))
         + spec_contribution U kw (case descriptionSnippet video of None \<Rightarrow> [] | Some d \<Rightarrow> d)
             (0.5 * (2.0 * exp (- real index / 10)))"
  let ?fc = "\<lambda>channel m. addKeywords U m (chanName channel) 1.5"
  let ?cc = "\<lambda>channel. spec_contribution U kw (chanName channel) 1.5"
  let ?g = "\<lambda>m. get_or_0 m kw"
  let ?k1 = "fold ?fs (enumerate 0 (searchHistory sources)) []"
  let ?k2 = "fold ?fw (enumerate 0 (watchHistory sources)) ?k1"
  let ?k3 = "fold ?fc (subscribedChannels sources) ?k2"
  have s1: "?g ?k1 = ?g [] + sum_list (map ?cs (enumerate 0 (searchHistory sources)))"
    by (rule fold_additive) (auto simp: get_or_0_addKeywords Let_def)
  have s2: "?g ?k2 = ?g ?k1 + sum_list (map ?cw (enumerate 0 (watchHistory sources)))"
    by (rule fold_additive) (auto simp: get_or_0_addKeywords Let_def mult.commute)
  have s3: "?g ?k3 = ?g ?k2 + sum_list (map ?cc (subscribedChannels sources))"
    by (rule fold_additive) (auto simp: get_or_0_addKeywords)
  have e1: "sum_list (map ?cs (enumerate 0 (searchHistory sources)))
      = (\<Sum>i<length (searchHistory sources).
           spec_contribution U kw (searchHistory sources ! i) (3.0 * exp (- real i / 5)))"
    using sum_list_enumerate[of "\<lambda>i term. spec_contribution U kw term (3.0 * exp (- real i / 5))" 0
        "searchHistory sources"] by simp
  have e2: "sum_list (map ?cw (enumerate 0 (watchHistory sources)))
      = (\<Sum>i<length (watchHistory sources).
         spec_contribution U kw (title (watchHistory sources ! i)) (2.0 * exp (- real i / 10))
         + spec_contribution U kw (channelName (watchHistory sources ! i))
             (0.8 * (2.0 * exp (- real i / 10)))
         + spec_contribution U kw
             (case descriptionSnippet (watchHistory sources ! i) of None \<Rightarrow> [] | Some d \<Rightarrow> d)
             (0.5 * (2.0 * exp (- real i / 10))))"
    using sum_list_enumerate[of "\<lambda>i video. spec_contribution U kw (title video) (2.0 * exp (- real i / 10))
         + spec_contribution U kw (channelName video) (0.8 * (2.0 * exp (- real i / 10)))
         + spec_contribution U kw (case descriptionSnippet video of None \<Rightarrow> [] | Some d \<Rightarrow> d)
             (0.5 * (2.0 * exp (- real i / 10)))" 0 "watchHistory sources"] by simp
  have "keywordWeights (buildUserProfile U sources) = ?k3"
    by (simp add: buildUserProfile_def Let_def)
  then have "get_or_0 (keywordWeights (buildUserProfile U sources)) kw = ?g ?k3" by simp
  also have "\<dots> = ?g [] + sum_list (map ?cs (enumerate 0 (searchHistory sources)))
       + sum_list (map ?cw (enumerate 0 (watchHistory sources)))
       + sum_list (map ?cc (subscribedChannels sources))"
    by (simp only: s1 s2 s3)
  also have "\<dots> = spec_profileWeight U sources kw"
    by (simp only: e1 e2 spec_profileWeight_def) (simp add: get_or_0_def)
  finally show ?thesis .
qed

text \<open>
  Claim C6. For every watch history, search history and subscription list, the weight
  that the built profile gives to a keyword (0 when it gives none) is the sum of
  \<open>3.0 * exp (-i / 5)\<close> over the search terms at position \<open>i\<close> that yield the keyword,
  of \<open>2.0 * exp (-i / 10)\<close> over the watched videos at position \<open>i\<close> whose title yields it,
  0.8 times that for their channel names and 0.5 times that for their description
  snippets, and of 1.5 over the subscribed channels whose name yields it; each
  \<open>addKeywords\<close> adds its weight once to every keyword extracted from its text.
\<close>

theorem profile_weights_accumulate:
  "get_or_0 (keywordWeights (buildUserProfile U sources)) kw = spec_profileWeight U sources kw
   \<and> get_or_0 (addKeywords U m text weight) kw = get_or_0 m kw + spec_contribution U kw text weight"
  by (simp add: buildUserProfile_weight get_or_0_addKeywords)

theorem profile_weights_accumulate_witness:
  "get_or_0 (keywordWeights (buildUserProfile basicLatin exampleSources)) (str ''music'')
     = 3 * exp (- (1 / 5)) + 2 + 3 / 2
   \<and> get_or_0 (keywordWeights (buildUserProfile basicLatin exampleSources)) (str ''studio'')
     = 8 / 5 + 3 / 2
   \<and> get_or_0 (keywordWeights (buildUserProfile basicLatin exampleSources)) (str ''cats'') = 3"
proof -
  have k: "extractKeywords basicLatin (str ''cats'') = [str ''cats'']"
    "extractKeywords basicLatin (str ''live music'') = [str ''live'', str ''music'']"
    "extractKeywords basicLatin (str ''music video'') = [str ''music'', str ''video'']"
    "extractKeywords basicLatin (str ''Studio'') = [str ''studio'']"
    "extractKeywords basicLatin (str ''Music Studio'') = [str ''music'', str ''studio'']"
    "extractKeywords basicLatin [] = []"
    by (simp_all add: extract_eval)
  have w: "spec_profileWeight basicLatin exampleSources kw
      = spec_contribution basicLatin kw (str ''cats'') 3
        + spec_contribution basicLatin kw (str ''live music'') (3 * exp (- (1 / 5)))
        + (spec_contribution basicLatin kw (str ''music video'') 2
           + spec_contribution basicLatin kw (str ''Studio'') (8 / 5)
           + spec_contribution basicLatin kw [] 1)
        + spec_contribution basicLatin kw (str ''Music Studio'') (3 / 2)" for kw
    by (simp add: spec_profileWeight_def exampleSources_def musicVideo_def lessThan_Suc)
  show ?thesis
    using profile_weights_accumulate[of basicLatin exampleSources "str ''music''"]
      profile_weights_accumulate[of basicLatin exampleSources "str ''studio''"]
      profile_weights_accumulate[of basicLatin exampleSources "str ''cats''"]
    by (simp add: w spec_contribution_def k)
qed

section \<open>Negative keywords: lemmas\<close>












section \<open>Fan-out and fan-in: lemmas\<close>













end
